theory Spec2Isabelle
  imports Complex_Main "HOL-Library.Multiset"
begin

section \<open>JavaScript values\<close>

text \<open>
  A JavaScript string is a sequence of UTF-16 code units; \<open>s.length\<close> counts them and
  \<open>s[i]\<close> is the one-unit string at position \<open>i\<close>, or \<open>undefined\<close> past the end.
  String literals of the source are written with \<open>str\<close>.
\<close>

type_synonym jsstring = "nat list"

definition str :: "string \<Rightarrow> jsstring" where
  "str s = map of_char s"

text \<open>\<open>s[i] || ''\<close>: the one-unit string at \<open>i\<close>, the empty string past the end.\<close>

definition charAt :: "jsstring \<Rightarrow> nat \<Rightarrow> jsstring" where
  "charAt s i = (if i < length s then [s ! i] else [])"

text \<open>
  \<open>String.prototype.trim\<close> removes the code units of WhiteSpace and LineTerminator
  from both ends.
\<close>

definition isWhiteSpace :: "nat \<Rightarrow> bool" where
  "isWhiteSpace c \<longleftrightarrow>
     c \<in> {9, 10, 11, 12, 13, 32, 160, 5760, 8232, 8233, 8239, 8287, 12288, 65279}
     \<or> (8192 \<le> c \<and> c \<le> 8202)"

definition trim :: "jsstring \<Rightarrow> jsstring" where
  "trim s = rev (dropWhile isWhiteSpace (rev (dropWhile isWhiteSpace s)))"

text \<open>
  \<open>String.prototype.toLowerCase\<close> is a built-in over all of Unicode; the functions that
  call it take it as a parameter. \<open>asciiLowerCase\<close> is its restriction to strings of
  ASCII code units, used for the concrete examples.
\<close>

definition asciiLowerCase :: "jsstring \<Rightarrow> jsstring" where
  "asciiLowerCase s = map (\<lambda>c. if 65 \<le> c \<and> c \<le> 90 then c + 32 else c) s"

text \<open>
  A JavaScript number as the cursors hold it: a natural number, or \<open>NaN\<close>, which is what
  \<open>x % 0\<close> evaluates to. \<open>NaN\<close> is absorbing for \<open>+\<close> and \<open>%\<close>.
\<close>

datatype jsnum = Num nat | NaN

fun js_add :: "jsnum \<Rightarrow> nat \<Rightarrow> jsnum" where
  "js_add (Num a) b = Num (a + b)"
| "js_add NaN b = NaN"

fun js_rem :: "jsnum \<Rightarrow> nat \<Rightarrow> jsnum" where
  "js_rem (Num a) b = (if b = 0 then NaN else Num (a mod b))"
| "js_rem NaN b = NaN"

text \<open>
  An integer in a template literal: its decimal digits, with a minus sign when it is
  negative (the form JavaScript gives every integer below \<open>10\<^sup>2\<^sup>1\<close> in absolute value).
  \<open>Math.round\<close> rounds to the nearest integer, a half upwards.
\<close>

function decimal :: "nat \<Rightarrow> jsstring" where
  "decimal n = (if n < 10 then [48 + n] else decimal (n div 10) @ [48 + n mod 10])"
  by pat_completeness auto
termination
  by (relation "measure id") auto

declare decimal.simps [simp del]

definition number_text :: "int \<Rightarrow> jsstring" where
  "number_text k = (if k < 0 then 45 # decimal (nat (- k)) else decimal (nat k))"

definition Math_round :: "real \<Rightarrow> int" where
  "Math_round x = \<lfloor>x + 1 / 2\<rfloor>"

text \<open>\<open>xs[k]\<close>: the element at \<open>k\<close>, \<open>undefined\<close> (here \<open>None\<close>) past the end or at \<open>NaN\<close>.\<close>

fun js_index :: "'a list \<Rightarrow> jsnum \<Rightarrow> 'a option" where
  "js_index xs (Num k) = (if k < length xs then Some (xs ! k) else None)"
| "js_index xs NaN = None"

section \<open>\<open>renderSpellingDiff\<close>\<close>

text \<open>
  The function returns a list of \<open>span\<close> elements. Each has a class
  (\<open>char-incorrect\<close>, \<open>char-missing\<close>, \<open>char-correct\<close>), the position it was pushed
  for (its key) and the text it shows.
\<close>

datatype span =
    CharIncorrect nat jsstring
  | CharMissing nat jsstring
  | CharCorrect nat jsstring

text \<open>What one iteration of the \<open>for\<close> loop pushes onto \<open>result\<close>.\<close>

definition diffAt :: "(jsstring \<Rightarrow> jsstring) \<Rightarrow> jsstring \<Rightarrow> jsstring \<Rightarrow> nat \<Rightarrow> span list" where
  "diffAt toLowerCase userAnswer correctAnswer i =
     (let userChar = charAt userAnswer i;
          correctChar = charAt correctAnswer i
      in if toLowerCase userChar \<noteq> toLowerCase correctChar then
           (if userChar \<noteq> [] then [CharIncorrect i userChar] else []) @
           (if \<not> i < length userAnswer \<and> correctChar \<noteq> [] then [CharMissing i correctChar] else [])
         else [CharCorrect i userChar])"

function renderSpellingDiff_loop ::
  "(jsstring \<Rightarrow> jsstring) \<Rightarrow> jsstring \<Rightarrow> jsstring \<Rightarrow> nat \<Rightarrow> nat \<Rightarrow> span list \<Rightarrow> span list" where
  "renderSpellingDiff_loop toLowerCase userAnswer correctAnswer maxLen i result =
     (if i < maxLen then
        renderSpellingDiff_loop toLowerCase userAnswer correctAnswer maxLen (i + 1)
          (result @ diffAt toLowerCase userAnswer correctAnswer i)
      else result)"
  by pat_completeness auto
termination
  by (relation "measure (\<lambda>(_, _, _, maxLen, i, _). maxLen - i)") auto

definition renderSpellingDiff :: "(jsstring \<Rightarrow> jsstring) \<Rightarrow> jsstring \<Rightarrow> jsstring \<Rightarrow> span list" where
  "renderSpellingDiff toLowerCase userAnswer correctAnswer =
     renderSpellingDiff_loop toLowerCase userAnswer correctAnswer
       (max (length userAnswer) (length correctAnswer)) 0 []"

section \<open>\<open>shuffleArray\<close>\<close>

text \<open>
  A JavaScript number is a binary64 floating-point number, and the product of two of
  them is the exact product rounded to the nearest binary64 number, a tie going to
  the one with an even significand. For a positive real \<open>x\<close> below the overflow
  threshold, \<open>exponent x\<close> is the binary exponent of the binary64 numbers around \<open>x\<close>
  (from \<open>-1022\<close>, where the subnormal numbers begin), \<open>ulp x\<close> is the distance between
  neighbouring ones, and \<open>binary64 x\<close> is \<open>x\<close> rounded. A real number is a binary64
  number when rounding leaves it as it is.
\<close>

definition exponent :: "real \<Rightarrow> int" where
  "exponent x = max (- 1022) \<lfloor>log 2 x\<rfloor>"

definition ulp :: "real \<Rightarrow> real" where
  "ulp x = 2 powr of_int (exponent x - 52)"

definition roundTiesToEven :: "real \<Rightarrow> int" where
  "roundTiesToEven y =
     (let f = \<lfloor>y\<rfloor>
      in if y - of_int f < 1 / 2 then f
         else if 1 / 2 < y - of_int f then f + 1
         else if even f then f else f + 1)"

definition binary64 :: "real \<Rightarrow> real" where
  "binary64 x = (if x = 0 then 0 else ulp x * of_int (roundTiesToEven (x / ulp x)))"

text \<open>
  \<open>Math.random()\<close> returns a binary64 number that is at least 0 and less than 1. In
  \<open>Math.floor(Math.random() * (i + 1))\<close> the sum \<open>i + 1\<close> is exact, since an array index
  is below \<open>2\<^sup>3\<^sup>2\<close>, and the product is rounded before its floor is taken.
\<close>

typedef random_number = "{r :: real. 0 \<le> r \<and> r < 1 \<and> binary64 r = r}"
  morphisms number_of Random
  by (rule exI [of _ 0]) (simp add: binary64_def)

definition draw :: "random_number \<Rightarrow> nat \<Rightarrow> nat" where
  "draw r i = nat \<lfloor>binary64 (number_of r * real (i + 1))\<rfloor>"

text \<open>
  The loop \<open>for (let i = shuffled.length - 1; i > 0; i--)\<close>, with \<open>random i\<close> the number
  \<open>Math.random()\<close> returns in the iteration at \<open>i\<close>. The destructuring assignment reads
  both elements before it writes either.
\<close>

fun shuffle_loop :: "(nat \<Rightarrow> random_number) \<Rightarrow> nat \<Rightarrow> 'a list \<Rightarrow> 'a list" where
  "shuffle_loop random 0 shuffled = shuffled"
| "shuffle_loop random (Suc n) shuffled =
     (let i = Suc n; j = draw (random i) i
      in shuffle_loop random n (shuffled[i := shuffled ! j, j := shuffled ! i]))"

text \<open>
  On the empty array \<open>shuffled.length - 1\<close> is \<open>-1\<close> and the loop does not run; the
  truncated subtraction gives 0, where it does not run either.
\<close>

definition shuffleArray :: "(nat \<Rightarrow> random_number) \<Rightarrow> 'a list \<Rightarrow> 'a list" where
  "shuffleArray random array = (let shuffled = array in shuffle_loop random (length shuffled - 1) shuffled)"

text \<open>
  The same function on a store of arrays, where an array is a reference: the address of
  an array is its position in the store. \<open>[...array]\<close> allocates a new array with the
  elements of the one at \<open>array\<close>, and the loop writes to the new one only.
\<close>

type_synonym 'a store = "'a list list"

fun shuffle_loop_store :: "(nat \<Rightarrow> random_number) \<Rightarrow> nat \<Rightarrow> nat \<Rightarrow> 'a store \<Rightarrow> 'a store" where
  "shuffle_loop_store random shuffled 0 st = st"
| "shuffle_loop_store random shuffled (Suc n) st =
     (let i = Suc n; j = draw (random i) i; a = st ! shuffled
      in shuffle_loop_store random shuffled n (st[shuffled := a[i := a ! j, j := a ! i]]))"

definition shuffleArray_store :: "(nat \<Rightarrow> random_number) \<Rightarrow> nat \<Rightarrow> 'a store \<Rightarrow> nat \<times> 'a store" where
  "shuffleArray_store random array st =
     (let shuffled = length st;
          st1 = st @ [st ! array]
      in (shuffled, shuffle_loop_store random shuffled (length (st1 ! shuffled) - 1) st1))"

section \<open>The state of the practice session controller\<close>

datatype page = Home | Add | Translation | Writing | Pronunciation | Endings

text \<open>The two non-null values of \<open>practiceDirection\<close>.\<close>

datatype practice_direction = TranslationDir | WritingDir

definition direction_name :: "practice_direction \<Rightarrow> jsstring" where
  "direction_name d = (case d of TranslationDir \<Rightarrow> str ''translation'' | WritingDir \<Rightarrow> str ''writing'')"

record word =
  word_id :: nat
  polish :: jsstring
  english :: jsstring
  ukrainian :: jsstring

datatype status_type = Success | Error | Info

record status =
  kind :: status_type
  message :: jsstring

text \<open>
  The statistics are computed by the server; the controller stores and shows them and
  never computes with them.
\<close>

record statistics =
  today_percentage :: int
  trend :: int
  overall_percentage :: int
  available_words :: int

text \<open>The object kept in \<open>lastAnswer\<close>.\<close>

record feedback =
  userAnswer :: jsstring
  correctAnswer :: jsstring
  alternatives :: "jsstring list"
  wasCorrect :: bool
  direction :: "practice_direction option"
  skipped :: bool

text \<open>The payload of \<open>verbs/question\<close>, kept in \<open>endingsQuestion\<close>.\<close>

record question =
  verb_id :: nat
  pronoun :: jsstring
  options :: "jsstring list"
  q_correct_answer :: jsstring
  infinitive :: jsstring

text \<open>
  The payloads of \<open>practice/validate\<close>, \<open>practice/skip\<close> and \<open>verbs/validate\<close>. A
  missing \<open>alternatives\<close> field is \<open>None\<close> (the source reads \<open>payload.alternatives || []\<close>).
\<close>

record validate_payload =
  was_correct :: bool
  correct_answer :: jsstring
  alternatives_field :: "jsstring list option"
  stats_field :: statistics

record skip_payload =
  skip_correct_answer :: jsstring
  skip_alternatives_field :: "jsstring list option"
  skip_stats_field :: statistics

record verb_payload =
  verb_was_correct :: bool
  verb_correct_answer :: jsstring
  verb_stats_field :: statistics

text \<open>
  The payload of \<open>practice/pronunciation\<close>. The similarity score is taken as a real
  number.
\<close>

record pronunciation_payload =
  pron_was_correct :: bool
  transcribed_text :: jsstring
  expected_word :: jsstring
  similarity_score :: real
  feedback_text :: jsstring
  pron_stats_field :: statistics

text \<open>
  How an awaited request ends: \<open>fetch\<close> rejects or the body cannot be read
  (\<open>Rejected\<close>), the response has a non-success status (\<open>NotOk\<close>), or the response is
  a success with its parsed payload.
\<close>

datatype 'p outcome = Rejected | NotOk | Ok 'p

text \<open>
  The values held by \<open>useState\<close>. A render, and every handler created by it, sees one
  such record: the snapshot. The fields of the add-words and verb-entry flows
  (\<open>manualEntry\<close>, \<open>manualStatus\<close>, \<open>loadingStats\<close>, \<open>addMode\<close>, \<open>verbPool\<close>, \<open>verbEntry\<close>,
  \<open>verbStatus\<close>, \<open>verbLoading\<close>) are read by none of the functions below and are left
  out.
\<close>

record ui =
  activePage :: page
  languageSet :: jsstring
  wordPool :: "word list"
  practiceIndex :: jsnum
  answer :: jsstring
  practiceStatus :: "status option"
  stats :: "statistics option"
  shuffledWords :: "word list"
  lastAnswer :: "feedback option"
  pronunciationStatus :: "status option"
  pronunciationIndex :: jsnum
  endingsQuestion :: "question option"
  endingsStatus :: "status option"
  endingsStats :: "statistics option"
  isRecording :: bool

text \<open>
  A request with the fields of its body. The audio of \<open>practice/pronunciation\<close> is not
  represented.
\<close>

datatype request =
    POST_practice_validate nat jsstring jsstring jsstring
  | POST_practice_skip nat jsstring jsstring jsstring
  | POST_verbs_validate nat jsstring jsstring
  | GET_verbs_question
  | GET_verbs_stats
  | POST_practice_pronunciation nat jsstring

text \<open>What a timeout does when it fires.\<close>

datatype timer_callback = HidePractice | HidePronunciation | HideEndings

text \<open>The calls a handler makes to the outside, in the order it makes them.\<close>

datatype action =
    Fetch request
  | ClearTimeout nat
  | SetTimeout nat timer_callback nat
  | ConsoleError
  | GetUserMedia

text \<open>
  A handler suspended at an \<open>await\<close>, with the snapshot of the render that created it:
  after the \<open>await\<close> it still reads its variables from that snapshot, while every
  setter it calls acts on the state of the moment.
\<close>

datatype pending =
    AwaitPracticeValidate ui
  | AwaitPracticeSkip ui
  | AwaitPronunciationSkip ui
  | AwaitVerbsValidate ui
  | AwaitVerbsQuestion
  | AwaitEndingsSkipValidate ui
  | AwaitEndingsSkipStats ui
  | AwaitUserMedia ui
  | AwaitRecorderStop ui
  | AwaitPronunciation ui

text \<open>
  The component with what lives outside a render: the three timeout refs, the pending
  timeouts of the browser, the requests in flight and the trace of outside calls.
  \<open>mediaRecorderRef\<close> holds the recorder; what matters of a recorder is its \<open>onstop\<close>
  callback, a closure of the render that started the recording, so the ref holds that
  snapshot.
\<close>

record sys =
  ui :: ui
  practiceStatusTimeoutRef :: "nat option"
  pronunciationStatusTimeoutRef :: "nat option"
  endingsStatusTimeoutRef :: "nat option"
  mediaRecorderRef :: "ui option"
  timers :: "(nat \<times> timer_callback) list"
  nextTimerId :: nat
  inflight :: "pending list"
  trace :: "action list"

definition STATUS_HIDE_DELAY :: nat where
  "STATUS_HIDE_DELAY = 5000"

subsection \<open>Setters\<close>

definition setActivePage :: "page \<Rightarrow> sys \<Rightarrow> sys" where
  "setActivePage v y = y\<lparr>ui := (ui y)\<lparr>activePage := v\<rparr>\<rparr>"

definition setLanguageSet :: "jsstring \<Rightarrow> sys \<Rightarrow> sys" where
  "setLanguageSet v y = y\<lparr>ui := (ui y)\<lparr>languageSet := v\<rparr>\<rparr>"

definition setWordPool :: "word list \<Rightarrow> sys \<Rightarrow> sys" where
  "setWordPool v y = y\<lparr>ui := (ui y)\<lparr>wordPool := v\<rparr>\<rparr>"

text \<open>
  \<open>setPracticeIndex\<close> and \<open>setPronunciationIndex\<close> take the updater function; it is
  applied to the value of the moment.
\<close>

definition setPracticeIndex :: "(jsnum \<Rightarrow> jsnum) \<Rightarrow> sys \<Rightarrow> sys" where
  "setPracticeIndex f y = y\<lparr>ui := (ui y)\<lparr>practiceIndex := f (practiceIndex (ui y))\<rparr>\<rparr>"

definition setPronunciationIndex :: "(jsnum \<Rightarrow> jsnum) \<Rightarrow> sys \<Rightarrow> sys" where
  "setPronunciationIndex f y = y\<lparr>ui := (ui y)\<lparr>pronunciationIndex := f (pronunciationIndex (ui y))\<rparr>\<rparr>"

definition setAnswer :: "jsstring \<Rightarrow> sys \<Rightarrow> sys" where
  "setAnswer v y = y\<lparr>ui := (ui y)\<lparr>answer := v\<rparr>\<rparr>"

definition setPracticeStatus :: "status option \<Rightarrow> sys \<Rightarrow> sys" where
  "setPracticeStatus v y = y\<lparr>ui := (ui y)\<lparr>practiceStatus := v\<rparr>\<rparr>"

definition setStats :: "statistics option \<Rightarrow> sys \<Rightarrow> sys" where
  "setStats v y = y\<lparr>ui := (ui y)\<lparr>stats := v\<rparr>\<rparr>"

definition setShuffledWords :: "word list \<Rightarrow> sys \<Rightarrow> sys" where
  "setShuffledWords v y = y\<lparr>ui := (ui y)\<lparr>shuffledWords := v\<rparr>\<rparr>"

definition setLastAnswer :: "feedback option \<Rightarrow> sys \<Rightarrow> sys" where
  "setLastAnswer v y = y\<lparr>ui := (ui y)\<lparr>lastAnswer := v\<rparr>\<rparr>"

definition setPronunciationStatus :: "status option \<Rightarrow> sys \<Rightarrow> sys" where
  "setPronunciationStatus v y = y\<lparr>ui := (ui y)\<lparr>pronunciationStatus := v\<rparr>\<rparr>"

definition setEndingsQuestion :: "question option \<Rightarrow> sys \<Rightarrow> sys" where
  "setEndingsQuestion v y = y\<lparr>ui := (ui y)\<lparr>endingsQuestion := v\<rparr>\<rparr>"

definition setEndingsStatus :: "status option \<Rightarrow> sys \<Rightarrow> sys" where
  "setEndingsStatus v y = y\<lparr>ui := (ui y)\<lparr>endingsStatus := v\<rparr>\<rparr>"

definition setEndingsStats :: "statistics option \<Rightarrow> sys \<Rightarrow> sys" where
  "setEndingsStats v y = y\<lparr>ui := (ui y)\<lparr>endingsStats := v\<rparr>\<rparr>"

definition setIsRecording :: "bool \<Rightarrow> sys \<Rightarrow> sys" where
  "setIsRecording v y = y\<lparr>ui := (ui y)\<lparr>isRecording := v\<rparr>\<rparr>"

subsection \<open>Outside calls\<close>

definition consoleError :: "sys \<Rightarrow> sys" where
  "consoleError y = y\<lparr>trace := trace y @ [ConsoleError]\<rparr>"

text \<open>\<open>fetch\<close> issues the request; the handler that awaits it is suspended.\<close>

definition fetch :: "request \<Rightarrow> pending \<Rightarrow> sys \<Rightarrow> sys" where
  "fetch req k y = y\<lparr>inflight := inflight y @ [k], trace := trace y @ [Fetch req]\<rparr>"

definition clearTimeout :: "nat \<Rightarrow> sys \<Rightarrow> sys" where
  "clearTimeout t y =
     y\<lparr>timers := filter (\<lambda>(t', _). t' \<noteq> t) (timers y), trace := trace y @ [ClearTimeout t]\<rparr>"

text \<open>
  \<open>if (ref.current) clearTimeout(ref.current)\<close>: a ref holding \<open>null\<close> or the number 0
  is falsy.
\<close>

definition clearIfSet :: "nat option \<Rightarrow> sys \<Rightarrow> sys" where
  "clearIfSet r y = (case r of None \<Rightarrow> y | Some t \<Rightarrow> if t = 0 then y else clearTimeout t y)"

text \<open>\<open>setTimeout\<close> registers the callback and returns a fresh identifier.\<close>

definition setTimeout :: "timer_callback \<Rightarrow> nat \<Rightarrow> sys \<Rightarrow> nat \<times> sys" where
  "setTimeout cb delay y =
     (nextTimerId y,
      y\<lparr>timers := timers y @ [(nextTimerId y, cb)],
        nextTimerId := Suc (nextTimerId y),
        trace := trace y @ [SetTimeout (nextTimerId y) cb delay]\<rparr>)"

definition run_callback :: "timer_callback \<Rightarrow> sys \<Rightarrow> sys" where
  "run_callback cb y =
     (case cb of
        HidePractice \<Rightarrow> setLastAnswer None (setPracticeStatus None y)
      | HidePronunciation \<Rightarrow> setPronunciationStatus None y
      | HideEndings \<Rightarrow> setEndingsStatus None y)"

section \<open>Values derived in a render\<close>

definition practiceDirection :: "ui \<Rightarrow> practice_direction option" where
  "practiceDirection u =
     (if activePage u = Translation then Some TranslationDir
      else if activePage u = Writing then Some WritingDir
      else None)"

text \<open>\<open>None\<close> stands for \<open>null\<close> and for \<open>undefined\<close>: the source only tests the value for truth.\<close>

definition currentWord :: "ui \<Rightarrow> word option" where
  "currentWord u =
     (if practiceDirection u \<noteq> None \<and> length (shuffledWords u) \<noteq> 0
      then js_index (shuffledWords u) (js_rem (practiceIndex u) (length (shuffledWords u)))
      else None)"

definition currentPronunciationWord :: "ui \<Rightarrow> word option" where
  "currentPronunciationWord u =
     (if activePage u = Pronunciation \<and> length (shuffledWords u) \<noteq> 0
      then js_index (shuffledWords u) (js_rem (pronunciationIndex u) (length (shuffledWords u)))
      else None)"

text \<open>
  The part of \<open>renderPracticePage\<close> that shows the learner's answer with its wrong
  characters marked: \<open>Some\<close> of the spans when the paragraph is rendered, \<open>None\<close> when
  it is not, in which case \<open>renderSpellingDiff\<close> is not called.
\<close>

definition spellingDiffShown :: "(jsstring \<Rightarrow> jsstring) \<Rightarrow> ui \<Rightarrow> span list option" where
  "spellingDiffShown toLowerCase u =
     (case lastAnswer u of
        None \<Rightarrow> None
      | Some la \<Rightarrow>
          if \<not> wasCorrect la \<and> direction la = Some WritingDir \<and> userAnswer la \<noteq> [] \<and> \<not> skipped la
          then Some (renderSpellingDiff toLowerCase (userAnswer la) (correctAnswer la))
          else None)"

section \<open>Effects\<close>

text \<open>The effect on \<open>wordPool.length\<close>.\<close>

definition effect_wordPool_length :: "sys \<Rightarrow> sys" where
  "effect_wordPool_length y =
     (if length (wordPool (ui y)) = 0 then setPracticeIndex (\<lambda>_. Num 0) y else y)"

definition fetchEndingsQuestion :: "sys \<Rightarrow> sys" where
  "fetchEndingsQuestion y = fetch GET_verbs_question AwaitVerbsQuestion y"

definition fetchEndingsQuestion_response :: "question outcome \<Rightarrow> sys \<Rightarrow> sys" where
  "fetchEndingsQuestion_response r y =
     (case r of
        Ok payload \<Rightarrow> setEndingsQuestion (Some payload) y
      | Rejected \<Rightarrow>
          setEndingsStatus (Some \<lparr>kind = Error, message = str ''Add verbs to your session first.''\<rparr>)
            (consoleError y)
      | NotOk \<Rightarrow>
          setEndingsStatus (Some \<lparr>kind = Error, message = str ''Add verbs to your session first.''\<rparr>)
            (consoleError y))"

text \<open>
  The effect on \<open>activePage\<close>, \<open>languageSet\<close> and \<open>wordPool\<close>; \<open>random\<close> gives the numbers
  \<open>Math.random()\<close> returns during the shuffle.
\<close>

definition effect_page :: "(nat \<Rightarrow> random_number) \<Rightarrow> sys \<Rightarrow> sys" where
  "effect_page random y0 =
     (let snap = ui y0;
          y = setAnswer [] y0;
          y = setPracticeStatus None y;
          y = setPracticeIndex (\<lambda>_. Num 0) y;
          y = setPronunciationStatus None y;
          y = setPronunciationIndex (\<lambda>_. Num 0) y;
          y = setEndingsStatus None y;
          y = setEndingsQuestion None y;
          y = setLastAnswer None y;
          y = (if activePage snap = Translation \<or> activePage snap = Writing \<or> activePage snap = Pronunciation
               then setShuffledWords (shuffleArray random (wordPool snap)) y
               else y)
      in if activePage snap = Endings then fetchEndingsQuestion y else y)"

section \<open>Handlers\<close>

text \<open>
  A handler with an \<open>await\<close> is two functions: the part up to the \<open>await\<close>, which runs
  when the learner acts and reads the snapshot of that render, and the part after it
  (\<open>_response\<close>), which runs when the request has ended, on the state of that moment.
\<close>

definition handlePracticeSubmit :: "sys \<Rightarrow> sys" where
  "handlePracticeSubmit y0 =
     (let snap = ui y0 in
      case (currentWord snap, practiceDirection snap) of
        (Some w, Some d) \<Rightarrow>
          (let y = clearIfSet (practiceStatusTimeoutRef y0) y0 in
           if trim (answer snap) = [] then
             setPracticeStatus (Some \<lparr>kind = Error, message = str ''Try answering before submitting.''\<rparr>) y
           else
             fetch (POST_practice_validate (word_id w) (languageSet snap) (direction_name d) (answer snap))
               (AwaitPracticeValidate snap) y)
      | _ \<Rightarrow> y0)"

text \<open>
  Around the correct answer the message has the code units that the source file has
  there: U+201A U+00C4 U+00FA before it and U+201A U+00C4 U+00F9 after it.
\<close>

definition handlePracticeSubmit_response :: "ui \<Rightarrow> validate_payload outcome \<Rightarrow> sys \<Rightarrow> sys" where
  "handlePracticeSubmit_response snap r y0 =
     (let failed =
            setPracticeStatus
              (Some \<lparr>kind = Error, message = str ''Progress could not be recorded. Try again.''\<rparr>)
              (consoleError y0);
          y = (case r of
                 Ok payload \<Rightarrow>
                   (let baseMessage =
                          (if was_correct payload then str ''Correct! Keep going.''
                           else str ''The correct answer is '' @ [8218, 196, 250] @ correct_answer payload
                                @ [8218, 196, 249] @ str ''.'');
                        y = setPracticeStatus
                              (Some \<lparr>kind = (if was_correct payload then Success else Error),
                                     message = baseMessage\<rparr>) y0;
                        y = setStats (Some (stats_field payload)) y;
                        y = setLastAnswer
                              (Some \<lparr>userAnswer = answer snap,
                                     correctAnswer = correct_answer payload,
                                     alternatives = (case alternatives_field payload of None \<Rightarrow> [] | Some a \<Rightarrow> a),
                                     wasCorrect = was_correct payload,
                                     direction = practiceDirection snap,
                                     skipped = False\<rparr>) y;
                        (t, y) = setTimeout HidePractice STATUS_HIDE_DELAY y
                    in y\<lparr>practiceStatusTimeoutRef := Some t\<rparr>)
               | Rejected \<Rightarrow> failed
               | NotOk \<Rightarrow> failed);
          y = setAnswer [] y
      in setPracticeIndex (\<lambda>previous. js_rem (js_add previous 1) (length (wordPool snap))) y)"

definition handleSkip :: "sys \<Rightarrow> sys" where
  "handleSkip y0 =
     (let snap = ui y0 in
      case (currentWord snap, practiceDirection snap) of
        (Some w, Some d) \<Rightarrow>
          (let y = clearIfSet (practiceStatusTimeoutRef y0) y0 in
           fetch (POST_practice_skip (word_id w) (languageSet snap) (direction_name d) [])
             (AwaitPracticeSkip snap) y)
      | _ \<Rightarrow> y0)"

definition handleSkip_response :: "ui \<Rightarrow> skip_payload outcome \<Rightarrow> sys \<Rightarrow> sys" where
  "handleSkip_response snap r y0 =
     (let failed =
            setPracticeStatus (Some \<lparr>kind = Error, message = str ''Could not skip. Try again.''\<rparr>)
              (consoleError y0);
          y = (case r of
                 Ok payload \<Rightarrow>
                   (let y = setLastAnswer
                              (Some \<lparr>userAnswer = [],
                                     correctAnswer = skip_correct_answer payload,
                                     alternatives = (case skip_alternatives_field payload of None \<Rightarrow> [] | Some a \<Rightarrow> a),
                                     wasCorrect = False,
                                     direction = practiceDirection snap,
                                     skipped = True\<rparr>) y0;
                        y = setPracticeStatus (Some \<lparr>kind = Info, message = str ''Skipped. The answer was:''\<rparr>) y;
                        y = setStats (Some (skip_stats_field payload)) y;
                        (t, y) = setTimeout HidePractice STATUS_HIDE_DELAY y
                    in y\<lparr>practiceStatusTimeoutRef := Some t\<rparr>)
               | Rejected \<Rightarrow> failed
               | NotOk \<Rightarrow> failed);
          y = setAnswer [] y
      in setPracticeIndex (\<lambda>previous. js_rem (js_add previous 1) (length (shuffledWords snap))) y)"

definition nextPronunciationWord :: "sys \<Rightarrow> sys" where
  "nextPronunciationWord y0 =
     (let snap = ui y0;
          y = setPronunciationIndex (\<lambda>prev. js_rem (js_add prev 1) (length (shuffledWords snap))) y0
      in setPronunciationStatus None y)"

definition handlePronunciationSkip :: "sys \<Rightarrow> sys" where
  "handlePronunciationSkip y0 =
     (let snap = ui y0 in
      case currentPronunciationWord snap of
        None \<Rightarrow> y0
      | Some w \<Rightarrow>
          (let y = clearIfSet (pronunciationStatusTimeoutRef y0) y0 in
           fetch (POST_practice_skip (word_id w) (languageSet snap) (str ''pronunciation'') [])
             (AwaitPronunciationSkip snap) y))"

text \<open>
  Here a non-success status does not throw: the statistics are skipped and the status
  is still set. Only a rejected \<open>fetch\<close> reaches the \<open>catch\<close>.
\<close>

definition handlePronunciationSkip_response :: "ui \<Rightarrow> skip_payload outcome \<Rightarrow> sys \<Rightarrow> sys" where
  "handlePronunciationSkip_response snap r y0 =
     (let announce = (\<lambda>y.
            case currentPronunciationWord snap of
              None \<Rightarrow> consoleError y
            | Some w \<Rightarrow>
                (let y = setPronunciationStatus
                           (Some \<lparr>kind = Info,
                                  message = str ''Skipped. The word was '' @ [34] @ polish w @ [34] @ str ''.''\<rparr>) y;
                     (t, y) = setTimeout HidePronunciation STATUS_HIDE_DELAY y
                 in y\<lparr>pronunciationStatusTimeoutRef := Some t\<rparr>));
          y = (case r of
                 Ok payload \<Rightarrow> announce (setStats (Some (skip_stats_field payload)) y0)
               | NotOk \<Rightarrow> announce y0
               | Rejected \<Rightarrow> consoleError y0)
      in setPronunciationIndex (\<lambda>prev. js_rem (js_add prev 1) (length (shuffledWords snap))) y)"

definition handleEndingsAnswer :: "jsstring \<Rightarrow> sys \<Rightarrow> sys" where
  "handleEndingsAnswer selectedAnswer y0 =
     (let snap = ui y0 in
      case endingsQuestion snap of
        None \<Rightarrow> y0
      | Some q \<Rightarrow>
          (let y = clearIfSet (endingsStatusTimeoutRef y0) y0 in
           fetch (POST_verbs_validate (verb_id q) (pronoun q) selectedAnswer) (AwaitVerbsValidate snap) y))"

definition handleEndingsAnswer_response :: "ui \<Rightarrow> verb_payload outcome \<Rightarrow> sys \<Rightarrow> sys" where
  "handleEndingsAnswer_response snap r y0 =
     (let failed =
            setEndingsStatus (Some \<lparr>kind = Error, message = str ''Could not validate answer.''\<rparr>)
              (consoleError y0)
      in case r of
           Ok payload \<Rightarrow>
             (let y = (if verb_was_correct payload then
                         setEndingsStatus (Some \<lparr>kind = Success, message = str ''Correct! Well done.''\<rparr>) y0
                       else
                         setEndingsStatus
                           (Some \<lparr>kind = Error,
                                  message = str ''Incorrect. The answer was '' @ [34] @ verb_correct_answer payload
                                            @ [34] @ str ''.''\<rparr>) y0);
                  y = setEndingsStats (Some (verb_stats_field payload)) y;
                  y = fetchEndingsQuestion y;
                  (t, y) = setTimeout HideEndings STATUS_HIDE_DELAY y
              in y\<lparr>endingsStatusTimeoutRef := Some t\<rparr>)
         | Rejected \<Rightarrow> failed
         | NotOk \<Rightarrow> failed)"

text \<open>
  \<open>handleEndingsSkip\<close> awaits twice: the validation request, whose response it does not
  read, and \<open>fetchEndingsStats\<close>, which catches its own failures.
\<close>

definition handleEndingsSkip :: "sys \<Rightarrow> sys" where
  "handleEndingsSkip y0 =
     (let snap = ui y0 in
      case endingsQuestion snap of
        None \<Rightarrow> y0
      | Some q \<Rightarrow>
          (let y = clearIfSet (endingsStatusTimeoutRef y0) y0 in
           fetch (POST_verbs_validate (verb_id q) (pronoun q) []) (AwaitEndingsSkipValidate snap) y))"

definition handleEndingsSkip_validated :: "ui \<Rightarrow> unit outcome \<Rightarrow> sys \<Rightarrow> sys" where
  "handleEndingsSkip_validated snap r y0 =
     (let continue =
            (case endingsQuestion snap of
               None \<Rightarrow> consoleError y0
             | Some q \<Rightarrow>
                 (let y = setEndingsStatus
                            (Some \<lparr>kind = Info,
                                   message = str ''Skipped. The answer was '' @ [34] @ q_correct_answer q
                                             @ [34] @ str ''.''\<rparr>) y0
                  in fetch GET_verbs_stats (AwaitEndingsSkipStats snap) y))
      in case r of
           Rejected \<Rightarrow> consoleError y0
         | NotOk \<Rightarrow> continue
         | Ok u \<Rightarrow> continue)"

definition handleEndingsSkip_stats :: "ui \<Rightarrow> statistics outcome \<Rightarrow> sys \<Rightarrow> sys" where
  "handleEndingsSkip_stats snap r y0 =
     (let y = (case r of
                 Ok st \<Rightarrow> setEndingsStats (Some st) y0
               | NotOk \<Rightarrow> y0
               | Rejected \<Rightarrow> consoleError y0);
          y = fetchEndingsQuestion y;
          (t, y) = setTimeout HideEndings STATUS_HIDE_DELAY y
      in y\<lparr>endingsStatusTimeoutRef := Some t\<rparr>)"

text \<open>
  \<open>startRecording\<close> awaits the microphone. When it is granted the recorder is created
  and started; its \<open>onstop\<close> callback calls the \<open>submitPronunciation\<close> of the render that
  started the recording. A refusal, and a recorder that cannot be created, both end in
  the \<open>catch\<close>. \<open>stopRecording\<close> stops the recorder, whose \<open>onstop\<close> then runs.
\<close>

definition startRecording :: "sys \<Rightarrow> sys" where
  "startRecording y0 =
     y0\<lparr>inflight := inflight y0 @ [AwaitUserMedia (ui y0)], trace := trace y0 @ [GetUserMedia]\<rparr>"

definition startRecording_response :: "ui \<Rightarrow> bool \<Rightarrow> sys \<Rightarrow> sys" where
  "startRecording_response snap granted y0 =
     (if granted then
        (let y = y0\<lparr>mediaRecorderRef := Some snap\<rparr>;
             y = setIsRecording True y
         in setPronunciationStatus
              (Some \<lparr>kind = Info, message = str ''Recording... Click Stop when done.''\<rparr>) y)
      else
        setPronunciationStatus
          (Some \<lparr>kind = Error,
                 message = str ''Could not access microphone. Please allow microphone access and try again.''\<rparr>)
          (consoleError y0))"

definition stopRecording :: "sys \<Rightarrow> sys" where
  "stopRecording y0 =
     (case mediaRecorderRef y0 of
        None \<Rightarrow> y0
      | Some recorder \<Rightarrow>
          if isRecording (ui y0) then
            (let y = y0\<lparr>inflight := inflight y0 @ [AwaitRecorderStop recorder]\<rparr>;
                 y = setIsRecording False y
             in setPronunciationStatus
                  (Some \<lparr>kind = Info, message = str ''Processing your pronunciation...''\<rparr>) y)
          else y0)"

definition submitPronunciation :: "ui \<Rightarrow> sys \<Rightarrow> sys" where
  "submitPronunciation snap y0 =
     (case currentPronunciationWord snap of
        None \<Rightarrow> y0
      | Some w \<Rightarrow>
          (let y = clearIfSet (pronunciationStatusTimeoutRef y0) y0 in
           fetch (POST_practice_pronunciation (word_id w) (languageSet snap)) (AwaitPronunciation snap) y))"

definition submitPronunciation_response :: "pronunciation_payload outcome \<Rightarrow> sys \<Rightarrow> sys" where
  "submitPronunciation_response r y0 =
     (let failed =
            setPronunciationStatus
              (Some \<lparr>kind = Error, message = str ''Could not validate pronunciation. Please try again.''\<rparr>)
              (consoleError y0)
      in case r of
           Ok payload \<Rightarrow>
             (let scorePercent = Math_round (similarity_score payload * 100);
                  y = (if pron_was_correct payload then
                         setPronunciationStatus
                           (Some \<lparr>kind = Success,
                                  message = str ''Correct! You said '' @ [34] @ transcribed_text payload @ [34]
                                            @ str '' ('' @ number_text scorePercent @ str ''% match)''\<rparr>) y0
                       else
                         setPronunciationStatus
                           (Some \<lparr>kind = Error,
                                  message = str ''You said '' @ [34] @ transcribed_text payload @ [34]
                                            @ str ''. Expected '' @ [34] @ expected_word payload @ [34]
                                            @ str ''. '' @ feedback_text payload\<rparr>) y0);
                  y = setStats (Some (pron_stats_field payload)) y;
                  (t, y) = setTimeout HidePronunciation STATUS_HIDE_DELAY y
              in y\<lparr>pronunciationStatusTimeoutRef := Some t\<rparr>)
         | Rejected \<Rightarrow> failed
         | NotOk \<Rightarrow> failed)"

section \<open>The component as a transition system\<close>

text \<open>
  What can happen to the mounted component. The session, statistics, starter-set and
  add-word requests are outside the controller; what reaches it is their call of
  \<open>setWordPool\<close>, \<open>setLanguageSet\<close>, \<open>setStats\<close> or \<open>setEndingsStats\<close>. An event that
  shuffles carries the numbers \<open>Math.random()\<close> returns; the arrival of a response
  names the suspended handler by its position among those in flight and carries how
  the request ended.
\<close>

datatype event =
    Navigate page "nat \<Rightarrow> random_number"
  | PoolLoaded "word list" "nat \<Rightarrow> random_number"
  | LanguageChanged jsstring "nat \<Rightarrow> random_number"
  | StatsLoaded statistics
  | Typed jsstring
  | SubmitPressed
  | SkipPressed
  | NextPronunciationPressed
  | PronunciationSkipPressed
  | EndingsOptionPressed jsstring
  | PracticeValidateArrived nat "validate_payload outcome"
  | PracticeSkipArrived nat "skip_payload outcome"
  | PronunciationSkipArrived nat "skip_payload outcome"
  | VerbsValidateArrived nat "verb_payload outcome"
  | VerbsQuestionArrived nat "question outcome"
  | EndingsSkipPressed
  | EndingsSkipValidateArrived nat "unit outcome"
  | EndingsSkipStatsArrived nat "statistics outcome"
  | EndingsStatsLoaded statistics
  | RecordPressed
  | UserMediaArrived nat bool
  | StopPressed
  | RecorderStopped nat
  | PronunciationArrived nat "pronunciation_payload outcome"
  | TimerFired nat

definition take_out :: "nat \<Rightarrow> sys \<Rightarrow> sys" where
  "take_out k y = y\<lparr>inflight := take k (inflight y) @ drop (Suc k) (inflight y)\<rparr>"

text \<open>
  One event, with the effects it triggers run to the end. An effect runs when one of
  its dependencies has changed: a state variable set to the value it has causes no
  render, while an array that comes out of a response is always a new object, so
  \<open>setWordPool\<close> always triggers the effect on \<open>wordPool\<close>. The effects set none of
  their own dependencies, so one round settles. Controls that are disabled or not
  rendered do nothing.
\<close>

fun step :: "event \<Rightarrow> sys \<Rightarrow> sys" where
  "step (Navigate p random) y =
     (if p = activePage (ui y) then y else effect_page random (setActivePage p y))"
| "step (PoolLoaded ws random) y =
     (let y' = setWordPool ws y;
          y' = (if length ws \<noteq> length (wordPool (ui y)) then effect_wordPool_length y' else y')
      in effect_page random y')"
| "step (LanguageChanged l random) y =
     (if l = languageSet (ui y) then y else effect_page random (setLanguageSet l y))"
| "step (StatsLoaded st) y = setStats (Some st) y"
| "step (Typed v) y = (if currentWord (ui y) \<noteq> None then setAnswer v y else y)"
| "step SubmitPressed y = handlePracticeSubmit y"
| "step SkipPressed y = handleSkip y"
| "step NextPronunciationPressed y =
     (if currentPronunciationWord (ui y) \<noteq> None \<and> \<not> isRecording (ui y)
      then nextPronunciationWord y else y)"
| "step PronunciationSkipPressed y =
     (if \<not> isRecording (ui y) then handlePronunciationSkip y else y)"
| "step (EndingsOptionPressed opt) y =
     (if activePage (ui y) = Endings
         \<and> (case endingsQuestion (ui y) of None \<Rightarrow> False | Some q \<Rightarrow> opt \<in> set (options q))
      then handleEndingsAnswer opt y else y)"
| "step (PracticeValidateArrived k r) y =
     (if k < length (inflight y) then
        (case inflight y ! k of
           AwaitPracticeValidate snap \<Rightarrow> handlePracticeSubmit_response snap r (take_out k y)
         | _ \<Rightarrow> y)
      else y)"
| "step (PracticeSkipArrived k r) y =
     (if k < length (inflight y) then
        (case inflight y ! k of
           AwaitPracticeSkip snap \<Rightarrow> handleSkip_response snap r (take_out k y)
         | _ \<Rightarrow> y)
      else y)"
| "step (PronunciationSkipArrived k r) y =
     (if k < length (inflight y) then
        (case inflight y ! k of
           AwaitPronunciationSkip snap \<Rightarrow> handlePronunciationSkip_response snap r (take_out k y)
         | _ \<Rightarrow> y)
      else y)"
| "step (VerbsValidateArrived k r) y =
     (if k < length (inflight y) then
        (case inflight y ! k of
           AwaitVerbsValidate snap \<Rightarrow> handleEndingsAnswer_response snap r (take_out k y)
         | _ \<Rightarrow> y)
      else y)"
| "step (VerbsQuestionArrived k r) y =
     (if k < length (inflight y) then
        (case inflight y ! k of
           AwaitVerbsQuestion \<Rightarrow> fetchEndingsQuestion_response r (take_out k y)
         | _ \<Rightarrow> y)
      else y)"
| "step EndingsSkipPressed y =
     (if activePage (ui y) = Endings then handleEndingsSkip y else y)"
| "step (EndingsSkipValidateArrived k r) y =
     (if k < length (inflight y) then
        (case inflight y ! k of
           AwaitEndingsSkipValidate snap \<Rightarrow> handleEndingsSkip_validated snap r (take_out k y)
         | _ \<Rightarrow> y)
      else y)"
| "step (EndingsSkipStatsArrived k r) y =
     (if k < length (inflight y) then
        (case inflight y ! k of
           AwaitEndingsSkipStats snap \<Rightarrow> handleEndingsSkip_stats snap r (take_out k y)
         | _ \<Rightarrow> y)
      else y)"
| "step (EndingsStatsLoaded st) y = setEndingsStats (Some st) y"
| "step RecordPressed y =
     (if currentPronunciationWord (ui y) \<noteq> None \<and> \<not> isRecording (ui y)
      then startRecording y else y)"
| "step (UserMediaArrived k granted) y =
     (if k < length (inflight y) then
        (case inflight y ! k of
           AwaitUserMedia snap \<Rightarrow> startRecording_response snap granted (take_out k y)
         | _ \<Rightarrow> y)
      else y)"
| "step StopPressed y =
     (if activePage (ui y) = Pronunciation \<and> isRecording (ui y) then stopRecording y else y)"
| "step (RecorderStopped k) y =
     (if k < length (inflight y) then
        (case inflight y ! k of
           AwaitRecorderStop snap \<Rightarrow> submitPronunciation snap (take_out k y)
         | _ \<Rightarrow> y)
      else y)"
| "step (PronunciationArrived k r) y =
     (if k < length (inflight y) then
        (case inflight y ! k of
           AwaitPronunciation snap \<Rightarrow> submitPronunciation_response r (take_out k y)
         | _ \<Rightarrow> y)
      else y)"
| "step (TimerFired t) y =
     (case map_of (timers y) t of
        None \<Rightarrow> y
      | Some cb \<Rightarrow> run_callback cb (y\<lparr>timers := filter (\<lambda>(t', _). t' \<noteq> t) (timers y)\<rparr>))"

text \<open>
  The component after mounting: the initial values of \<open>useState\<close>, on which the effects
  of the first render change nothing.
\<close>

definition init :: sys where
  "init =
     \<lparr>ui = \<lparr>activePage = Home, languageSet = str ''english'', wordPool = [],
             practiceIndex = Num 0, answer = [], practiceStatus = None, stats = None,
             shuffledWords = [], lastAnswer = None, pronunciationStatus = None,
             pronunciationIndex = Num 0, endingsQuestion = None, endingsStatus = None,
             endingsStats = None, isRecording = False\<rparr>,
      practiceStatusTimeoutRef = None, pronunciationStatusTimeoutRef = None,
      endingsStatusTimeoutRef = None, mediaRecorderRef = None, timers = [], nextTimerId = 1,
      inflight = [], trace = []\<rparr>"

definition run :: "event list \<Rightarrow> sys \<Rightarrow> sys" where
  "run es y = fold step es y"

inductive reachable :: "sys \<Rightarrow> bool" where
  reachable_init: "reachable init"
| reachable_step: "reachable y \<Longrightarrow> reachable (step e y)"



text \<open>
  What holds of every reachable state: on a word-based page the shuffled pool is a
  permutation of the word pool, both cursors are numbers, and a suspended submit or
  skip was created by a render whose pool was not empty.
\<close>

definition word_page :: "page \<Rightarrow> bool" where
  "word_page p \<longleftrightarrow> p = Translation \<or> p = Writing \<or> p = Pronunciation"

fun is_number :: "jsnum \<Rightarrow> bool" where
  "is_number (Num _) = True"
| "is_number NaN = False"

fun pending_ok :: "pending \<Rightarrow> bool" where
  "pending_ok (AwaitPracticeValidate snap) = (wordPool snap \<noteq> [])"
| "pending_ok (AwaitPracticeSkip snap) = (shuffledWords snap \<noteq> [])"
| "pending_ok (AwaitPronunciationSkip snap) = (shuffledWords snap \<noteq> [])"
| "pending_ok (AwaitVerbsValidate snap) = True"
| "pending_ok AwaitVerbsQuestion = True"
| "pending_ok (AwaitEndingsSkipValidate snap) = True"
| "pending_ok (AwaitEndingsSkipStats snap) = True"
| "pending_ok (AwaitUserMedia snap) = True"
| "pending_ok (AwaitRecorderStop snap) = True"
| "pending_ok (AwaitPronunciation snap) = True"

definition settled :: "sys \<Rightarrow> bool" where
  "settled y \<longleftrightarrow>
     (if word_page (activePage (ui y)) then mset (shuffledWords (ui y)) = mset (wordPool (ui y)) else True)
     \<and> is_number (practiceIndex (ui y))
     \<and> is_number (pronunciationIndex (ui y))
     \<and> list_all pending_ok (inflight y)"

text \<open>The requests among the outside calls of a trace, in order.\<close>

definition fetches :: "action list \<Rightarrow> request list" where
  "fetches tr = concat (map (\<lambda>a. case a of Fetch req \<Rightarrow> [req] | _ \<Rightarrow> []) tr)"

section \<open>Concrete data for the examples\<close>

definition wordA :: word where
  "wordA = \<lparr>word_id = 1, polish = str ''kot'', english = str ''cat'', ukrainian = [1082, 1110, 1090]\<rparr>"

definition wordB :: word where
  "wordB = \<lparr>word_id = 2, polish = str ''pies'', english = str ''dog'', ukrainian = [1087, 1077, 1089]\<rparr>"

text \<open>\<open>Math.random()\<close> returning 0 every time, and 1/2 every time.\<close>

definition zeros :: "nat \<Rightarrow> random_number" where
  "zeros = (\<lambda>_. Random 0)"

definition halves :: "nat \<Rightarrow> random_number" where
  "halves = (\<lambda>_. Random (1/2))"

text \<open>\<open>Math.random()\<close> returning 0.5714285714285714, the binary64 number just below 4/7.\<close>

definition four_sevenths :: random_number where
  "four_sevenths = Random (5146971002709138 / 2 ^ 53)"

definition sample_stats :: statistics where
  "sample_stats = \<lparr>today_percentage = 50, trend = 0, overall_percentage = 50, available_words = 100\<rparr>"

text \<open>
  The session loads two words, the learner opens translation practice and types an
  answer.
\<close>

definition practising :: sys where
  "practising = run [PoolLoaded [wordA, wordB] zeros, Navigate Translation zeros, Typed (str ''cat'')] init"




section \<open>Properties of \<open>renderSpellingDiff\<close>\<close>

lemma renderSpellingDiff_loop_concat:
  "renderSpellingDiff_loop lc u c m i r = r @ concat (map (diffAt lc u c) [i..<m])"
proof (induction lc u c m i r rule: renderSpellingDiff_loop.induct)
  case (1 lc u c m i r)
  show ?case
  proof (cases "i < m")
    case True
    with "1" show ?thesis
      by (simp add: upt_conv_Cons renderSpellingDiff_loop.simps [of lc u c m i r]
            del: renderSpellingDiff_loop.simps)
  next
    case False
    then show ?thesis by simp
  qed
qed

lemma diffAt_single:
  assumes lc: "\<And>s. (lc s = []) = (s = [])" and i: "i < max (length u) (length c)"
  shows "diffAt lc u c i =
     [if i < length u then
        (if lc [u ! i] \<noteq> lc (charAt c i) then CharIncorrect i [u ! i] else CharCorrect i [u ! i])
      else CharMissing i [c ! i]]"
  using i lc [of "[]"] lc [of "[c ! i]"] lc [of "[u ! i]"]
  by (auto simp: diffAt_def charAt_def Let_def)

lemma concat_singletons:
  "(\<And>i. i \<in> set js \<Longrightarrow> f i = [g i]) \<Longrightarrow> concat (map f js) = map g js"
  by (induction js) auto

lemma renderSpellingDiff_map:
  assumes lc: "\<And>s. (lc s = []) = (s = [])"
  shows "renderSpellingDiff lc u c =
     map (\<lambda>i. if i < length u then
                 (if lc [u ! i] \<noteq> lc (charAt c i) then CharIncorrect i [u ! i] else CharCorrect i [u ! i])
               else CharMissing i [c ! i])
       [0..<max (length u) (length c)]"
proof -
  have "concat (map (diffAt lc u c) [0..<max (length u) (length c)]) =
     map (\<lambda>i. if i < length u then
                 (if lc [u ! i] \<noteq> lc (charAt c i) then CharIncorrect i [u ! i] else CharCorrect i [u ! i])
               else CharMissing i [c ! i])
       [0..<max (length u) (length c)]"
    by (rule concat_singletons) (simp add: diffAt_single [OF lc])
  then show ?thesis
    unfolding renderSpellingDiff_def renderSpellingDiff_loop_concat by simp
qed

lemma asciiLowerCase_empty: "(asciiLowerCase s = []) = (s = [])"
  by (simp add: asciiLowerCase_def)

lemma renderSpellingDiff_kot_kod:
  "renderSpellingDiff asciiLowerCase (str ''kot'') (str ''kod'') =
     [CharCorrect 0 (str ''k''), CharCorrect 1 (str ''o''), CharIncorrect 2 (str ''t'')]"
  by (simp add: renderSpellingDiff_def str_def diffAt_def charAt_def asciiLowerCase_def)

lemma renderSpellingDiff_ko_kot:
  "renderSpellingDiff asciiLowerCase (str ''ko'') (str ''kot'') =
     [CharCorrect 0 (str ''k''), CharCorrect 1 (str ''o''), CharMissing 2 (str ''t'')]"
  by (simp add: renderSpellingDiff_def str_def diffAt_def charAt_def asciiLowerCase_def)

text \<open>
  Claim C7. \<open>renderSpellingDiff\<close> returns one annotation for each position below the
  length of the longer string. Where the learner's string has a character, the
  annotation carries it, and is \<open>char-incorrect\<close> when its lower-case form differs
  from the lower-case form of the expected character at that position (an absent
  expected character counts as different), \<open>char-correct\<close> otherwise. Past the end of
  the learner's string it is \<open>char-missing\<close> and carries the expected character.
  \<open>toLowerCase\<close> is any function that, like the built-in, yields the empty string for
  the empty string only. On "kot" against "kod" the result is correct, correct,
  incorrect; on "ko" against "kot" it is correct, correct, missing "t".
\<close>

theorem renderSpellingDiff_annotations:
  assumes "\<And>s. (toLowerCase s = []) = (s = [])"
  shows "length (renderSpellingDiff toLowerCase given expected)
           = max (length given) (length expected)
     \<and> (\<forall>i < max (length given) (length expected).
           renderSpellingDiff toLowerCase given expected ! i =
             (if i < length given then
                (if toLowerCase [given ! i] \<noteq> toLowerCase (charAt expected i)
                 then CharIncorrect i [given ! i]
                 else CharCorrect i [given ! i])
              else CharMissing i [expected ! i]))
     \<and> renderSpellingDiff asciiLowerCase (str ''kot'') (str ''kod'') =
           [CharCorrect 0 (str ''k''), CharCorrect 1 (str ''o''), CharIncorrect 2 (str ''t'')]
     \<and> renderSpellingDiff asciiLowerCase (str ''ko'') (str ''kot'') =
           [CharCorrect 0 (str ''k''), CharCorrect 1 (str ''o''), CharMissing 2 (str ''t'')]"
proof -
  note m = renderSpellingDiff_map [of toLowerCase given expected, OF assms]
  have "length (renderSpellingDiff toLowerCase given expected)
          = max (length given) (length expected)"
    by (simp add: m)
  moreover have "\<forall>i < max (length given) (length expected).
           renderSpellingDiff toLowerCase given expected ! i =
             (if i < length given then
                (if toLowerCase [given ! i] \<noteq> toLowerCase (charAt expected i)
                 then CharIncorrect i [given ! i]
                 else CharCorrect i [given ! i])
              else CharMissing i [expected ! i])"
    by (simp add: m)
  ultimately show ?thesis
    using renderSpellingDiff_kot_kod renderSpellingDiff_ko_kot by blast
qed

theorem renderSpellingDiff_annotations_witness:
  "(\<forall>s. (asciiLowerCase s = []) = (s = []))
   \<and> length (renderSpellingDiff asciiLowerCase (str ''Kox'') (str ''kot'')) = 3
   \<and> renderSpellingDiff asciiLowerCase (str ''Kox'') (str ''kot'') ! 0 = CharCorrect 0 (str ''K'')
   \<and> renderSpellingDiff asciiLowerCase (str ''Kox'') (str ''kot'') ! 2 = CharIncorrect 2 (str ''x'')
   \<and> renderSpellingDiff asciiLowerCase (str ''k'') (str ''kot'') ! 1 = CharMissing 1 (str ''o'')"
proof -
  have a: "\<And>s. (asciiLowerCase s = []) = (s = [])"
    by (rule asciiLowerCase_empty)
  from renderSpellingDiff_annotations [of asciiLowerCase "str ''Kox''" "str ''kot''", OF a]
       renderSpellingDiff_annotations [of asciiLowerCase "str ''k''" "str ''kot''", OF a]
  show ?thesis
    by (simp add: str_def charAt_def asciiLowerCase_def)
qed

section \<open>Properties of \<open>shuffleArray\<close>\<close>

lemma ulp_pos: "0 < ulp x"
  by (simp add: ulp_def)

lemma roundTiesToEven_upper: "of_int (roundTiesToEven y) \<le> y + 1 / 2"
  unfolding roundTiesToEven_def Let_def by (auto; linarith)

lemma roundTiesToEven_lower: "y - 1 / 2 \<le> of_int (roundTiesToEven y)"
  unfolding roundTiesToEven_def Let_def by (auto; linarith)

lemma roundTiesToEven_ge_floor: "\<lfloor>y\<rfloor> \<le> roundTiesToEven y"
  unfolding roundTiesToEven_def Let_def by auto

lemma roundTiesToEven_of_int: "roundTiesToEven (of_int k) = k"
  unfolding roundTiesToEven_def Let_def by simp

lemma binary64_upper: "binary64 x \<le> x + ulp x / 2"
proof (cases "x = 0")
  case True
  then show ?thesis using ulp_pos [of 0] by (simp add: binary64_def)
next
  case False
  have "ulp x * of_int (roundTiesToEven (x / ulp x)) \<le> ulp x * (x / ulp x + 1 / 2)"
    using roundTiesToEven_upper [of "x / ulp x"] ulp_pos [of x] by (simp add: mult_left_mono)
  also have "\<dots> = x + ulp x / 2"
    using ulp_pos [of x] by (simp add: algebra_simps)
  finally show ?thesis using False by (simp add: binary64_def)
qed

lemma binary64_nonneg: "0 \<le> x \<Longrightarrow> 0 \<le> binary64 x"
proof (cases "x = 0")
  case True
  then show ?thesis by (simp add: binary64_def)
next
  case False
  assume "0 \<le> x"
  then have "0 \<le> x / ulp x" using ulp_pos [of x] by simp
  then have "0 \<le> \<lfloor>x / ulp x\<rfloor>" by simp
  then have "0 \<le> roundTiesToEven (x / ulp x)" using roundTiesToEven_ge_floor [of "x / ulp x"] by linarith
  then show ?thesis using False ulp_pos [of x] by (simp add: binary64_def)
qed

lemma exponent_powr: "0 < x \<Longrightarrow> - 1022 \<le> \<lfloor>log 2 x\<rfloor> \<Longrightarrow> 2 powr of_int (exponent x) \<le> x"
proof -
  assume x: "0 < x" and "- 1022 \<le> \<lfloor>log 2 x\<rfloor>"
  then have e: "exponent x = \<lfloor>log 2 x\<rfloor>" by (simp add: exponent_def)
  have "\<lfloor>log 2 x\<rfloor> = \<lfloor>log 2 x\<rfloor>" ..
  then have "2 powr of_int \<lfloor>log 2 x\<rfloor> \<le> x"
    using floor_log_eq_powr_iff [OF x, of 2 "\<lfloor>log 2 x\<rfloor>"] by simp
  then show ?thesis by (simp add: e)
qed

lemma half_ulp:
  "ulp x / 2 = 2 powr of_int (exponent x) * 2 powr (- 53)"
proof -
  have "ulp x = 2 powr (of_int (exponent x) + (- 52))"
    by (simp add: ulp_def)
  also have "\<dots> = 2 powr of_int (exponent x) * 2 powr (- 52)"
    by (rule powr_add)
  finally have "ulp x / 2 = 2 powr of_int (exponent x) * (2 powr (- 52) / 2)"
    by simp
  moreover have "(2::real) powr (- 52) / 2 = 2 powr (- 53)"
    by (simp add: powr_minus)
  ultimately show ?thesis
    by simp
qed

lemma half_ulp_small:
  assumes "0 < x" and "x < n" and "1 \<le> n"
  shows "ulp x / 2 < n * 2 powr (- 53)"
proof -
  have "2 powr of_int (exponent x) < n"
  proof (cases "- 1022 \<le> \<lfloor>log 2 x\<rfloor>")
    case True
    from exponent_powr [OF assms(1) True] assms(2) show ?thesis by simp
  next
    case False
    then have "exponent x = - 1022" by (simp add: exponent_def)
    then have "2 powr of_int (exponent x) = (2::real) powr (- 1022)" by simp
    moreover have "(2::real) powr (- 1022) < 2 powr 0" by (rule powr_less_mono) simp_all
    ultimately show ?thesis using assms(3) by simp
  qed
  then show ?thesis unfolding half_ulp by simp
qed

lemma binary64_below:
  assumes "0 \<le> r" and "r \<le> 1 - 2 powr (- 53)" and "1 \<le> n"
  shows "binary64 (r * n) < n"
proof (cases "r * n = 0")
  case True
  then show ?thesis using assms(3) by (simp add: binary64_def)
next
  case False
  then have pos: "0 < r * n" using assms by (simp add: zero_less_mult_iff less_le)
  have "r * n \<le> (1 - 2 powr (- 53)) * n" using assms by (simp add: mult_right_mono)
  then have le: "r * n \<le> n - n * 2 powr (- 53)" by (simp add: algebra_simps)
  have "0 < n * 2 powr (- 53)" using assms(3) by simp
  with le have lt: "r * n < n" by linarith
  from half_ulp_small [OF pos lt assms(3)] binary64_upper [of "r * n"] le
  show ?thesis by linarith
qed

lemma representable_below_one:
  assumes "0 \<le> r" and "r < 1" and "binary64 r = r"
  shows "r \<le> 1 - 2 powr (- 53)"
proof (rule ccontr)
  assume "\<not> r \<le> 1 - 2 powr (- 53)"
  then have big: "1 - 2 powr (- 53) < r" by simp
  have "(2::real) powr (- 53) \<le> 2 powr (- 1)" by (rule powr_mono) simp_all
  then have half: "1 / 2 \<le> r" using big by (simp add: powr_minus)
  then have pos: "0 < r" by simp
  have "\<lfloor>log 2 r\<rfloor> = - 1"
    using floor_log_eq_powr_iff [OF pos, of 2 "- 1"] half assms(2) by (simp add: powr_minus)
  then have u: "ulp r = 2 powr (- 53)" by (simp add: ulp_def exponent_def)
  from assms(3) pos have "r = ulp r * of_int (roundTiesToEven (r / ulp r))"
    by (simp add: binary64_def)
  then obtain k :: int where k: "r = 2 powr (- 53) * of_int k" unfolding u by blast
  have p: "(2::real) powr (- 53) * 2 ^ 53 = 1" by (simp add: powr_minus)
  from k have rk: "r * 2 ^ 53 = of_int k" using p by (simp add: algebra_simps)
  from big have "(1 - 2 powr (- 53)) * 2 ^ 53 < r * 2 ^ 53" by simp
  then have "2 ^ 53 - 1 < (of_int k :: real)" using p rk by (simp add: algebra_simps)
  moreover from assms(2) have "r * 2 ^ 53 < 2 ^ 53" by simp
  then have "(of_int k :: real) < 2 ^ 53" using rk by simp
  ultimately have "real_of_int (2 ^ 53 - 1) < of_int k" "real_of_int k < of_int (2 ^ 53)"
    by simp_all
  then have "(2 ^ 53 - 1 :: int) < k" "k < 2 ^ 53"
    by (simp_all only: of_int_less_iff)
  then show False by linarith
qed


lemma exponent_eq:
  assumes "2 powr of_int e \<le> x" and "x < 2 powr of_int (e + 1)" and "- 1022 \<le> e"
  shows "exponent x = e"
proof -
  have "0 < (2::real) powr of_int e" by simp
  with assms(1) have pos: "0 < x" by linarith
  have "\<lfloor>log 2 x\<rfloor> = e"
    using floor_log_eq_powr_iff [OF pos, of 2 e] assms(1,2) by simp
  then show ?thesis using assms(3) by (simp add: exponent_def)
qed

lemma binary64_eval:
  assumes "2 powr of_int e \<le> x" and "x < 2 powr of_int (e + 1)" and "- 1022 \<le> e"
  shows "binary64 x = 2 powr of_int (e - 52) * of_int (roundTiesToEven (x / 2 powr of_int (e - 52)))"
proof -
  have "0 < (2::real) powr of_int e" by simp
  with assms(1) have "x \<noteq> 0" by linarith
  then show ?thesis
    by (simp add: binary64_def ulp_def exponent_eq [OF assms])
qed

lemma binary64_half: "binary64 (1 / 2) = 1 / 2"
proof -
  have "binary64 (1 / 2) =
      2 powr of_int (- 1 - 52) * of_int (roundTiesToEven ((1 / 2) / 2 powr of_int (- 1 - 52)))"
    by (rule binary64_eval) (simp_all add: powr_minus)
  also have "\<dots> = 1 / 2"
    by (simp add: powr_minus roundTiesToEven_def)
  finally show ?thesis .
qed

lemma binary64_one: "binary64 1 = 1"
proof -
  have "binary64 1 = 2 powr of_int (0 - 52) * of_int (roundTiesToEven (1 / 2 powr of_int (0 - 52)))"
    by (rule binary64_eval) simp_all
  also have "\<dots> = 1"
    by (simp add: powr_minus roundTiesToEven_def)
  finally show ?thesis .
qed

lemma binary64_three_halves: "binary64 (3 / 2) = 3 / 2"
proof -
  have "binary64 (3 / 2) =
      2 powr of_int (0 - 52) * of_int (roundTiesToEven ((3 / 2) / 2 powr of_int (0 - 52)))"
    by (rule binary64_eval) simp_all
  also have "\<dots> = 3 / 2"
    by (simp add: powr_minus roundTiesToEven_def)
  finally show ?thesis .
qed

lemma binary64_four_sevenths: "binary64 (5146971002709138 / 2 ^ 53) = 5146971002709138 / 2 ^ 53"
proof -
  have "binary64 (5146971002709138 / 2 ^ 53) =
      2 powr of_int (- 1 - 52) *
        of_int (roundTiesToEven ((5146971002709138 / 2 ^ 53) / 2 powr of_int (- 1 - 52)))"
    by (rule binary64_eval) (simp_all add: powr_minus)
  also have "\<dots> = 5146971002709138 / 2 ^ 53"
    by (simp add: powr_minus roundTiesToEven_def)
  finally show ?thesis .
qed

lemma binary64_rounds_up_to_four: "binary64 (5146971002709138 / 2 ^ 53 * 7) = 4"
proof -
  have "binary64 (5146971002709138 / 2 ^ 53 * 7) =
      2 powr of_int (1 - 52) *
        of_int (roundTiesToEven ((5146971002709138 / 2 ^ 53 * 7) / 2 powr of_int (1 - 52)))"
    by (rule binary64_eval) (simp_all add: powr_minus)
  also have "\<dots> = 4"
    by (simp add: powr_minus roundTiesToEven_def)
  finally show ?thesis .
qed

lemma exact_floor_le:
  assumes "0 \<le> x" and "x < 2 ^ 32"
  shows "of_int \<lfloor>x\<rfloor> \<le> binary64 x"
proof (cases "x = 0")
  case True
  then show ?thesis by (simp add: binary64_def)
next
  case False
  with assms have pos: "0 < x" by simp
  have "log 2 x < 32"
    using pos assms(2) by (simp add: log_less_iff)
  then have "\<lfloor>log 2 x\<rfloor> \<le> 31" by linarith
  then have e: "exponent x \<le> 52" by (simp add: exponent_def)
  define m where "m = nat (52 - exponent x)"
  have "1 / ulp x = inverse (2 powr of_int (exponent x - 52))"
    by (simp add: ulp_def divide_inverse)
  also have "\<dots> = 2 powr (- of_int (exponent x - 52))"
    by (simp only: powr_minus)
  also have "\<dots> = 2 powr real m"
    using e by (simp add: m_def)
  also have "\<dots> = 2 ^ m"
    by (simp add: powr_realpow)
  finally have inv: "1 / ulp x = 2 ^ m" .
  have "of_int \<lfloor>x\<rfloor> / ulp x = of_int \<lfloor>x\<rfloor> * (1 / ulp x)" by simp
  also have "\<dots> = of_int (\<lfloor>x\<rfloor> * 2 ^ m)" unfolding inv by simp
  finally have n: "of_int \<lfloor>x\<rfloor> / ulp x = of_int (\<lfloor>x\<rfloor> * 2 ^ m)" .
  have "of_int \<lfloor>x\<rfloor> / ulp x \<le> x / ulp x"
    using ulp_pos [of x] by (simp add: divide_right_mono)
  then have "of_int (\<lfloor>x\<rfloor> * 2 ^ m) \<le> x / ulp x" unfolding n .
  then have "\<lfloor>x\<rfloor> * 2 ^ m \<le> \<lfloor>x / ulp x\<rfloor>" by (simp add: le_floor_iff)
  then have "\<lfloor>x\<rfloor> * 2 ^ m \<le> roundTiesToEven (x / ulp x)"
    using roundTiesToEven_ge_floor [of "x / ulp x"] by linarith
  then have "(of_int (\<lfloor>x\<rfloor> * 2 ^ m) :: real) \<le> of_int (roundTiesToEven (x / ulp x))"
    by (simp only: of_int_le_iff)
  then have "ulp x * (of_int \<lfloor>x\<rfloor> / ulp x) \<le> ulp x * of_int (roundTiesToEven (x / ulp x))"
    unfolding n using ulp_pos [of x] by (simp only: mult_le_cancel_left_pos)
  then show ?thesis
    using False ulp_pos [of x] by (simp add: binary64_def)
qed

lemma binary64_lt_succ:
  assumes "0 \<le> x" and "x < 2 ^ 32"
  shows "binary64 x < x + 1"
proof (cases "x = 0")
  case True
  then show ?thesis by (simp add: binary64_def)
next
  case False
  with assms have pos: "0 < x" by simp
  have "(1::real) \<le> 2 ^ 32" by simp
  from half_ulp_small [OF pos assms(2) this]
  have "ulp x / 2 < 2 ^ 32 * 2 powr (- 53)" by simp
  also have "\<dots> < 1" by (simp add: powr_minus)
  finally show ?thesis using binary64_upper [of x] by linarith
qed

lemma number_of_range: "0 \<le> number_of r \<and> number_of r < 1 \<and> binary64 (number_of r) = number_of r"
  using number_of [of r] by simp

lemma number_of_max: "number_of r \<le> 1 - 2 powr (- 53)"
  using number_of_range [of r] by (simp add: representable_below_one)

lemma draw_le: "draw r i \<le> i"
proof -
  have "binary64 (number_of r * real (i + 1)) < real (i + 1)"
    using number_of_range [of r] number_of_max [of r] by (intro binary64_below) simp_all
  then have "\<lfloor>binary64 (number_of r * real (i + 1))\<rfloor> < int (i + 1)"
    by (simp add: floor_less_iff)
  then show ?thesis
    by (simp add: draw_def)
qed

lemma draw_near_exact:
  assumes "i < 2 ^ 32"
  shows "\<lfloor>number_of r * real (i + 1)\<rfloor> \<le> int (draw r i)"
    and "int (draw r i) \<le> \<lfloor>number_of r * real (i + 1)\<rfloor> + 1"
proof -
  let ?x = "number_of r * real (i + 1)"
  have nn: "0 \<le> ?x"
    using number_of_range [of r] by simp
  have "i + 1 \<le> 2 ^ 32"
    using assms by linarith
  then have "real (i + 1) \<le> real (2 ^ 32)"
    by (rule of_nat_mono)
  then have "real (i + 1) \<le> 2 ^ 32"
    by simp
  moreover have "?x < real (i + 1)"
    using number_of_range [of r] by (simp add: mult_less_cancel_right1)
  ultimately have lt: "?x < 2 ^ 32"
    by linarith
  have b: "0 \<le> binary64 ?x"
    using nn by (rule binary64_nonneg)
  then have d: "int (draw r i) = \<lfloor>binary64 ?x\<rfloor>"
    by (simp add: draw_def)
  from exact_floor_le [OF nn lt] show "\<lfloor>?x\<rfloor> \<le> int (draw r i)"
    unfolding d by (simp add: le_floor_iff)
  from binary64_lt_succ [OF nn lt] have "\<lfloor>binary64 ?x\<rfloor> \<le> \<lfloor>?x + 1\<rfloor>"
    by (intro floor_mono) simp
  then show "int (draw r i) \<le> \<lfloor>?x\<rfloor> + 1"
    unfolding d by simp
qed

lemma binary64_near:
  assumes "0 \<le> x" and "x < n" and "1 \<le> n"
  shows "binary64 x < x + n / 2 ^ 53"
proof (cases "x = 0")
  case True
  then show ?thesis using assms(3) by (simp add: binary64_def)
next
  case False
  with assms have pos: "0 < x" by simp
  have "(2::real) powr (- 53) = inverse (2 powr 53)"
    by (simp only: powr_minus)
  also have "(2::real) powr 53 = 2 ^ 53"
    by (simp only: powr_numeral)
  finally have "(2::real) powr (- 53) = 1 / 2 ^ 53"
    by (simp only: inverse_eq_divide)
  with half_ulp_small [OF pos assms(2,3)] have "ulp x / 2 < n / 2 ^ 53"
    by simp
  then show ?thesis using binary64_upper [of x] by linarith
qed

lemma product_range:
  assumes "i < 2 ^ 32"
  shows "0 \<le> number_of r * real (i + 1)" and "number_of r * real (i + 1) < real (i + 1)"
    and "number_of r * real (i + 1) < 2 ^ 32"
proof -
  let ?x = "number_of r * real (i + 1)"
  show nn: "0 \<le> ?x"
    using number_of_range [of r] by simp
  have "i + 1 \<le> 2 ^ 32"
    using assms by linarith
  then have "real (i + 1) \<le> real (2 ^ 32)"
    by (rule of_nat_mono)
  then have "real (i + 1) \<le> 2 ^ 32"
    by simp
  moreover show "?x < real (i + 1)"
    using number_of_range [of r] by (simp add: mult_less_cancel_right1)
  ultimately show lt: "?x < 2 ^ 32"
    by linarith
qed

lemma draw_interval:
  assumes "i < 2 ^ 32"
    and "real k \<le> number_of r * real (i + 1)"
    and "number_of r * real (i + 1) \<le> real k + 1 - real (i + 1) / 2 ^ 53"
  shows "draw r i = k"
proof -
  let ?x = "number_of r * real (i + 1)"
  note p = product_range [OF assms(1), of r]
  have "(1::real) \<le> real (i + 1)"
    by simp
  from binary64_near [OF p(1) p(2) this] assms(3) have u: "binary64 ?x < real k + 1"
    by linarith
  have "of_int (int k) \<le> ?x"
    using assms(2) by simp
  then have "int k \<le> \<lfloor>?x\<rfloor>"
    by (simp only: le_floor_iff)
  then have "real_of_int (int k) \<le> of_int \<lfloor>?x\<rfloor>"
    by (simp only: of_int_le_iff)
  with exact_floor_le [OF p(1) p(3)] have l: "real k \<le> binary64 ?x"
    by simp
  have "\<lfloor>binary64 ?x\<rfloor> = int k"
    using l u by (intro floor_unique) simp_all
  then show ?thesis
    by (simp add: draw_def)
qed

lemma draw_preimage:
  assumes "i < 2 ^ 32"
  shows "real (draw r i) - real (i + 1) / 2 ^ 53 < number_of r * real (i + 1)"
    and "number_of r * real (i + 1) < real (draw r i) + 1"
proof -
  let ?x = "number_of r * real (i + 1)"
  note p = product_range [OF assms(1), of r]
  have b: "0 \<le> binary64 ?x"
    using p(1) by (rule binary64_nonneg)
  then have "0 \<le> \<lfloor>binary64 ?x\<rfloor>"
    by simp
  then have d: "real (draw r i) = of_int \<lfloor>binary64 ?x\<rfloor>"
    by (simp add: draw_def)
  have "(1::real) \<le> real (i + 1)"
    by simp
  from binary64_near [OF p(1) p(2) this] show "real (draw r i) - real (i + 1) / 2 ^ 53 < ?x"
    unfolding d by linarith
  have "of_int \<lfloor>?x\<rfloor> \<le> binary64 ?x"
    using p(1) p(3) by (rule exact_floor_le)
  then have "\<lfloor>?x\<rfloor> \<le> \<lfloor>binary64 ?x\<rfloor>"
    by (simp only: le_floor_iff)
  then have "real_of_int \<lfloor>?x\<rfloor> \<le> of_int \<lfloor>binary64 ?x\<rfloor>"
    by (simp only: of_int_le_iff)
  then show "?x < real (draw r i) + 1"
    unfolding d by linarith
qed

lemma number_of_halves: "number_of (halves i) = 1 / 2"
  by (simp add: halves_def Random_inverse binary64_half)

lemma number_of_four_sevenths: "number_of four_sevenths = 5146971002709138 / 2 ^ 53"
  unfolding four_sevenths_def
proof (rule Random_inverse, intro CollectI conjI)
  show "(0::real) \<le> 5146971002709138 / 2 ^ 53"
    by simp
  show "(5146971002709138::real) / 2 ^ 53 < 1"
    by simp
  show "binary64 (5146971002709138 / 2 ^ 53) = 5146971002709138 / 2 ^ 53"
    by (rule binary64_four_sevenths)
qed

lemma draw_halves: "draw (halves 1) 1 = 1" "draw (halves 2) 2 = 1"
proof -
  have a: "number_of (halves 1) * real (1 + 1) = 1"
    and b: "number_of (halves 2) * real (2 + 1) = 3 / 2"
    by (simp_all add: number_of_halves)
  have "draw (halves 1) 1 = nat \<lfloor>binary64 1\<rfloor>"
    unfolding draw_def a ..
  then show "draw (halves 1) 1 = 1"
    by (simp add: binary64_one)
  have "draw (halves 2) 2 = nat \<lfloor>binary64 (3 / 2)\<rfloor>"
    unfolding draw_def b ..
  then show "draw (halves 2) 2 = 1"
    by (simp add: binary64_three_halves)
qed

lemma draw_four_sevenths:
  "draw four_sevenths 6 = 4" "\<lfloor>number_of four_sevenths * real (6 + 1)\<rfloor> = 3"
proof -
  have "real (6 + 1) = 7"
    by simp
  then have "draw four_sevenths 6 = nat \<lfloor>binary64 (5146971002709138 / 2 ^ 53 * 7)\<rfloor>"
    unfolding draw_def number_of_four_sevenths by (simp only:)
  then show "draw four_sevenths 6 = 4"
    by (simp only: binary64_rounds_up_to_four) simp
  show "\<lfloor>number_of four_sevenths * real (6 + 1)\<rfloor> = 3"
    by (simp add: number_of_four_sevenths)
qed

lemma mset_shuffle_loop: "n < length xs \<Longrightarrow> mset (shuffle_loop random n xs) = mset xs"
proof (induction n arbitrary: xs)
  case 0
  then show ?case by simp
next
  case (Suc n)
  have "draw (random (Suc n)) (Suc n) < length xs"
    using draw_le [of "random (Suc n)" "Suc n"] Suc.prems by simp
  with Suc show ?case
    by (simp add: Let_def mset_swap)
qed

lemma mset_shuffleArray: "mset (shuffleArray random xs) = mset xs"
proof (cases xs)
  case Nil
  then show ?thesis by (simp add: shuffleArray_def)
next
  case (Cons a as)
  then show ?thesis by (simp add: shuffleArray_def mset_shuffle_loop)
qed

lemma length_shuffleArray: "length (shuffleArray random xs) = length xs"
  using mset_shuffleArray [of random xs] by (metis size_mset)

lemma shuffle_loop_fold:
  "shuffle_loop random n xs =
     fold (\<lambda>i ys. ys[i := ys ! draw (random i) i, draw (random i) i := ys ! i]) (rev [1..<Suc n]) xs"
  by (induction n arbitrary: xs) (simp_all add: Let_def)

lemma shuffleArray_fold:
  "shuffleArray random xs =
     fold (\<lambda>i ys. ys[i := ys ! draw (random i) i, draw (random i) i := ys ! i]) (rev [1..<length xs]) xs"
proof (cases xs)
  case Nil
  then show ?thesis by (simp add: shuffleArray_def)
next
  case (Cons a as)
  then have "length xs - 1 = length as" "length xs = Suc (length as)"
    by simp_all
  then show ?thesis
    unfolding shuffleArray_def Let_def by (simp only: shuffle_loop_fold)
qed

lemma shuffle_loop_store_frame:
  "shuffled < length st \<Longrightarrow>
     length (shuffle_loop_store random shuffled n st) = length st \<and>
     (\<forall>a. a \<noteq> shuffled \<longrightarrow> shuffle_loop_store random shuffled n st ! a = st ! a) \<and>
     shuffle_loop_store random shuffled n st ! shuffled = shuffle_loop random n (st ! shuffled)"
proof (induction n arbitrary: st)
  case 0
  then show ?case by simp
next
  case (Suc n)
  let ?a = "st ! shuffled"
  let ?j = "draw (random (Suc n)) (Suc n)"
  let ?st' = "st[shuffled := ?a[Suc n := ?a ! ?j, ?j := ?a ! Suc n]]"
  have "shuffled < length ?st'"
    using Suc.prems by simp
  from Suc.IH [OF this] Suc.prems show ?case
    by (simp add: Let_def)
qed

lemma shuffleArray_store_frame:
  assumes "array < length st"
  shows "fst (shuffleArray_store random array st) = length st"
    and "length (snd (shuffleArray_store random array st)) = Suc (length st)"
    and "\<forall>a < length st. snd (shuffleArray_store random array st) ! a = st ! a"
    and "snd (shuffleArray_store random array st) ! length st = shuffleArray random (st ! array)"
  using assms
    shuffle_loop_store_frame [of "length st" "st @ [st ! array]" random "length (st ! array) - 1"]
  by (auto simp: shuffleArray_store_def shuffleArray_def Let_def nth_append)

text \<open>
  Claim C4. \<open>shuffleArray\<close> returns a permutation of its input: the same multiset of
  elements and the same length. It is the Fisher-Yates loop: for \<open>i\<close> from the last
  position down to 1 it swaps the elements at \<open>i\<close> and at the drawn \<open>j\<close>. The drawn \<open>j\<close>
  is the integer part of the binary64 product of \<open>Math.random()\<close> and \<open>i + 1\<close>. It lies
  in \<open>[0, i]\<close>, also when the product has been rounded upwards. For an index below
  \<open>2\<^sup>3\<^sup>2\<close> it is the integer part of the exact product, or the next integer when the
  product rounds up to it: a value \<open>k\<close> is drawn whenever \<open>Math.random()\<close> lies from
  \<open>k / (i + 1)\<close> to \<open>(k + 1) / (i + 1) - 2\<^sup>-\<^sup>5\<^sup>3\<close>, and only when it lies above
  \<open>k / (i + 1) - 2\<^sup>-\<^sup>5\<^sup>3\<close> and below \<open>(k + 1) / (i + 1)\<close>; the intervals on which the values of
  the range are drawn have the same width up to that rounding. On the store, the function
  returns a newly allocated array that holds the shuffled elements, and every array
  that existed before, the input among them, is left as it was.
\<close>

theorem shuffleArray_fisher_yates:
  "mset (shuffleArray random array) = mset array
   \<and> length (shuffleArray random array) = length array
   \<and> shuffleArray random array =
       fold (\<lambda>i shuffled. shuffled[i := shuffled ! draw (random i) i, draw (random i) i := shuffled ! i])
         (rev [1..<length array]) array
   \<and> (\<forall>r i. draw r i \<le> i)
   \<and> (\<forall>r i. i < 2 ^ 32 \<longrightarrow>
         \<lfloor>number_of r * real (i + 1)\<rfloor> \<le> int (draw r i)
         \<and> int (draw r i) \<le> \<lfloor>number_of r * real (i + 1)\<rfloor> + 1)
   \<and> (\<forall>r i k. i < 2 ^ 32 \<and> real k \<le> number_of r * real (i + 1)
           \<and> number_of r * real (i + 1) \<le> real k + 1 - real (i + 1) / 2 ^ 53 \<longrightarrow>
         draw r i = k)
   \<and> (\<forall>r i. i < 2 ^ 32 \<longrightarrow>
         real (draw r i) - real (i + 1) / 2 ^ 53 < number_of r * real (i + 1)
         \<and> number_of r * real (i + 1) < real (draw r i) + 1)
   \<and> (\<forall>(st :: 'a store) a. a < length st \<longrightarrow>
         fst (shuffleArray_store random a st) = length st
         \<and> length (snd (shuffleArray_store random a st)) = Suc (length st)
         \<and> (\<forall>b < length st. snd (shuffleArray_store random a st) ! b = st ! b)
         \<and> snd (shuffleArray_store random a st) ! length st = shuffleArray random (st ! a))"
proof -
  have c1: "mset (shuffleArray random array) = mset array"
    by (rule mset_shuffleArray)
  have c2: "length (shuffleArray random array) = length array"
    by (rule length_shuffleArray)
  have c3: "shuffleArray random array =
       fold (\<lambda>i shuffled. shuffled[i := shuffled ! draw (random i) i, draw (random i) i := shuffled ! i])
         (rev [1..<length array]) array"
    by (rule shuffleArray_fold)
  have c4: "\<forall>r i. draw r i \<le> i"
    by (intro allI) (rule draw_le)
  have c5: "\<forall>r i. i < 2 ^ 32 \<longrightarrow>
         \<lfloor>number_of r * real (i + 1)\<rfloor> \<le> int (draw r i)
         \<and> int (draw r i) \<le> \<lfloor>number_of r * real (i + 1)\<rfloor> + 1"
    using draw_near_exact by blast
  have c6: "\<forall>r i k. i < 2 ^ 32 \<and> real k \<le> number_of r * real (i + 1)
           \<and> number_of r * real (i + 1) \<le> real k + 1 - real (i + 1) / 2 ^ 53 \<longrightarrow>
         draw r i = k"
    using draw_interval by blast
  have c7: "\<forall>r i. i < 2 ^ 32 \<longrightarrow>
         real (draw r i) - real (i + 1) / 2 ^ 53 < number_of r * real (i + 1)
         \<and> number_of r * real (i + 1) < real (draw r i) + 1"
    using draw_preimage by blast
  have c8: "\<forall>(st :: 'a store) a. a < length st \<longrightarrow>
         fst (shuffleArray_store random a st) = length st
         \<and> length (snd (shuffleArray_store random a st)) = Suc (length st)
         \<and> (\<forall>b < length st. snd (shuffleArray_store random a st) ! b = st ! b)
         \<and> snd (shuffleArray_store random a st) ! length st = shuffleArray random (st ! a)"
  proof (intro allI impI)
    fix st :: "'a store" and a
    assume "a < length st"
    from shuffleArray_store_frame [OF this, of random]
    show "fst (shuffleArray_store random a st) = length st
         \<and> length (snd (shuffleArray_store random a st)) = Suc (length st)
         \<and> (\<forall>b < length st. snd (shuffleArray_store random a st) ! b = st ! b)
         \<and> snd (shuffleArray_store random a st) ! length st = shuffleArray random (st ! a)"
      by (intro conjI)
  qed
  show ?thesis
    by (intro conjI) (rule c1 c2 c3 c4 c5 c6 c7 c8)+
qed

theorem shuffleArray_fisher_yates_witness:
  "(0::nat) < length [[1::nat, 2, 3]]
   \<and> shuffleArray halves [1::nat, 2, 3] = [1, 3, 2]
   \<and> mset (shuffleArray halves [1::nat, 2, 3]) = mset [1, 2, 3]
   \<and> fst (shuffleArray_store halves 0 [[1::nat, 2, 3]]) = 1
   \<and> snd (shuffleArray_store halves 0 [[1::nat, 2, 3]]) ! 0 = [1, 2, 3]
   \<and> snd (shuffleArray_store halves 0 [[1::nat, 2, 3]]) ! 1 = [1, 3, 2]
   \<and> (6::nat) < 2 ^ 32
   \<and> \<lfloor>number_of four_sevenths * real (6 + 1)\<rfloor> = 3
   \<and> draw four_sevenths 6 = 4
   \<and> int (draw four_sevenths 6) \<le> \<lfloor>number_of four_sevenths * real (6 + 1)\<rfloor> + 1
   \<and> number_of four_sevenths * real (6 + 1) < real (draw four_sevenths 6) + 1
   \<and> number_of (halves 2) * real (2 + 1) = 3 / 2
   \<and> draw (halves 2) 2 = 1"
proof -
  have h: "(0::nat) < length [[1::nat, 2, 3]]"
    by simp
  have g: "(6::nat) < 2 ^ 32"
    by simp
  have e: "shuffleArray halves [1::nat, 2, 3] = [1, 3, 2]"
    by (simp add: shuffleArray_def Let_def numeral_2_eq_2 draw_halves [unfolded numeral_2_eq_2 One_nat_def])
  have x: "number_of (halves 2) * real (2 + 1) = 3 / 2"
    by (simp add: number_of_halves)
  have k: "(2::nat) < 2 ^ 32 \<and> real (1::nat) \<le> number_of (halves 2) * real (2 + 1)
      \<and> number_of (halves 2) * real (2 + 1) \<le> real (1::nat) + 1 - real (2 + 1) / 2 ^ 53"
    unfolding x by simp
  note t = shuffleArray_fisher_yates [of halves "[1::nat, 2, 3]"]
  note m = t [THEN conjunct1]
  note n = t [THEN conjunct2, THEN conjunct2, THEN conjunct2, THEN conjunct2, THEN conjunct1,
              THEN spec, THEN spec, THEN mp, OF g, THEN conjunct2]
  note a = t [THEN conjunct2, THEN conjunct2, THEN conjunct2, THEN conjunct2, THEN conjunct2,
              THEN conjunct1, THEN spec, THEN spec, THEN spec, THEN mp, OF k]
  note b = t [THEN conjunct2, THEN conjunct2, THEN conjunct2, THEN conjunct2, THEN conjunct2,
              THEN conjunct2, THEN conjunct1, THEN spec, THEN spec, THEN mp, OF g, THEN conjunct2]
  note f = t [THEN conjunct2, THEN conjunct2, THEN conjunct2, THEN conjunct2, THEN conjunct2,
              THEN conjunct2, THEN conjunct2, THEN spec, THEN spec, THEN mp, OF h]
  have c: "shuffleArray halves [1::nat, 2, 3] = [1, 3, 2]
     \<and> mset (shuffleArray halves [1::nat, 2, 3]) = mset [1, 2, 3]
     \<and> fst (shuffleArray_store halves 0 [[1::nat, 2, 3]]) = 1
     \<and> snd (shuffleArray_store halves 0 [[1::nat, 2, 3]]) ! 0 = [1, 2, 3]
     \<and> snd (shuffleArray_store halves 0 [[1::nat, 2, 3]]) ! 1 = [1, 3, 2]"
    using e m f by simp
  have d: "\<lfloor>number_of four_sevenths * real (6 + 1)\<rfloor> = 3 \<and> draw four_sevenths 6 = 4
     \<and> int (draw four_sevenths 6) \<le> \<lfloor>number_of four_sevenths * real (6 + 1)\<rfloor> + 1"
    using n [of four_sevenths] draw_four_sevenths by simp
  from h c g d b [of four_sevenths] x a show ?thesis
    by (intro conjI) (elim conjE, assumption)+
qed

section \<open>What every reachable state satisfies\<close>

lemmas setter_defs = setActivePage_def setLanguageSet_def setWordPool_def setPracticeIndex_def
  setPronunciationIndex_def setAnswer_def setPracticeStatus_def setStats_def setShuffledWords_def
  setLastAnswer_def setPronunciationStatus_def setEndingsQuestion_def setEndingsStatus_def
  setEndingsStats_def setIsRecording_def

lemmas outside_defs = consoleError_def fetch_def clearTimeout_def clearIfSet_def setTimeout_def

lemma is_number_rem:
  "is_number a \<Longrightarrow> xs \<noteq> [] \<Longrightarrow> is_number (js_rem (js_add a (Suc 0)) (length xs))"
  by (cases a) simp_all

lemma effect_page_settled:
  "list_all pending_ok (inflight y) \<Longrightarrow> settled (effect_page random y)"
  by (simp add: settled_def effect_page_def Let_def setter_defs fetchEndingsQuestion_def fetch_def
      mset_shuffleArray word_page_def)

lemma effect_wordPool_length_inflight: "inflight (effect_wordPool_length y) = inflight y"
  by (simp add: effect_wordPool_length_def setter_defs)

lemmas derived_defs = currentWord_def currentPronunciationWord_def practiceDirection_def word_page_def

lemma clearIfSet_frame:
  "ui (clearIfSet r y) = ui y" "inflight (clearIfSet r y) = inflight y"
  by (simp_all add: clearIfSet_def clearTimeout_def split: option.splits)

lemma settled_handlePracticeSubmit: "settled y \<Longrightarrow> settled (handlePracticeSubmit y)"
  by (auto simp: settled_def handlePracticeSubmit_def Let_def setter_defs fetch_def clearIfSet_frame
      derived_defs split: option.splits if_splits)

lemma settled_handleSkip: "settled y \<Longrightarrow> settled (handleSkip y)"
  by (auto simp: settled_def handleSkip_def Let_def setter_defs fetch_def clearIfSet_frame
      derived_defs split: option.splits if_splits)

lemma settled_handlePronunciationSkip: "settled y \<Longrightarrow> settled (handlePronunciationSkip y)"
  by (auto simp: settled_def handlePronunciationSkip_def Let_def setter_defs fetch_def clearIfSet_frame
      derived_defs split: option.splits if_splits)

lemma settled_handleEndingsAnswer: "settled y \<Longrightarrow> settled (handleEndingsAnswer opt y)"
  by (auto simp: settled_def handleEndingsAnswer_def Let_def setter_defs fetch_def clearIfSet_frame
      derived_defs split: option.splits if_splits)

lemma settled_nextPronunciationWord:
  "settled y \<Longrightarrow> currentPronunciationWord (ui y) \<noteq> None \<Longrightarrow> settled (nextPronunciationWord y)"
  by (auto simp: settled_def nextPronunciationWord_def Let_def setter_defs is_number_rem
      derived_defs split: option.splits if_splits)

lemma list_all_take_out:
  "list_all P (inflight y) \<Longrightarrow> list_all P (inflight (take_out k y))"
  by (auto simp: take_out_def list_all_iff dest: in_set_takeD in_set_dropD)

lemma take_out_ui: "ui (take_out k y) = ui y"
  by (simp add: take_out_def)

lemma settled_take_out: "settled y \<Longrightarrow> settled (take_out k y)"
  using list_all_take_out [of pending_ok y k] by (simp add: settled_def take_out_ui)

lemma settled_submit_response:
  "settled y \<Longrightarrow> wordPool snap \<noteq> [] \<Longrightarrow> settled (handlePracticeSubmit_response snap r y)"
  by (cases r) (auto simp: settled_def handlePracticeSubmit_response_def Let_def setter_defs outside_defs
      is_number_rem split: prod.splits)

lemma settled_skip_response:
  "settled y \<Longrightarrow> shuffledWords snap \<noteq> [] \<Longrightarrow> settled (handleSkip_response snap r y)"
  by (cases r) (auto simp: settled_def handleSkip_response_def Let_def setter_defs outside_defs
      is_number_rem split: prod.splits)

lemma settled_pronunciation_skip_response:
  "settled y \<Longrightarrow> shuffledWords snap \<noteq> [] \<Longrightarrow> settled (handlePronunciationSkip_response snap r y)"
  by (cases r) (auto simp: settled_def handlePronunciationSkip_response_def Let_def setter_defs outside_defs
      is_number_rem split: prod.splits option.splits)

lemma settled_endings_response:
  "settled y \<Longrightarrow> settled (handleEndingsAnswer_response snap r y)"
  by (cases r) (auto simp: settled_def handleEndingsAnswer_response_def Let_def setter_defs outside_defs
      fetchEndingsQuestion_def split: prod.splits)

lemma settled_question_response:
  "settled y \<Longrightarrow> settled (fetchEndingsQuestion_response r y)"
  by (cases r) (auto simp: settled_def fetchEndingsQuestion_response_def Let_def setter_defs outside_defs)

lemma settled_handleEndingsSkip: "settled y \<Longrightarrow> settled (handleEndingsSkip y)"
  by (auto simp: settled_def handleEndingsSkip_def Let_def setter_defs fetch_def clearIfSet_frame
      split: option.splits)

lemma settled_endings_skip_validated:
  "settled y \<Longrightarrow> settled (handleEndingsSkip_validated snap r y)"
  by (cases r)
    (auto simp: settled_def handleEndingsSkip_validated_def Let_def setter_defs outside_defs
      split: option.splits)

lemma settled_endings_skip_stats:
  "settled y \<Longrightarrow> settled (handleEndingsSkip_stats snap r y)"
  by (cases r)
    (auto simp: settled_def handleEndingsSkip_stats_def Let_def setter_defs outside_defs
      fetchEndingsQuestion_def split: prod.splits)

lemma settled_startRecording: "settled y \<Longrightarrow> settled (startRecording y)"
  by (simp add: settled_def startRecording_def)

lemma settled_startRecording_response:
  "settled y \<Longrightarrow> settled (startRecording_response snap granted y)"
  by (simp add: settled_def startRecording_response_def Let_def setter_defs outside_defs)

lemma settled_stopRecording: "settled y \<Longrightarrow> settled (stopRecording y)"
  by (simp add: settled_def stopRecording_def Let_def setter_defs split: option.splits)

lemma settled_submitPronunciation: "settled y \<Longrightarrow> settled (submitPronunciation snap y)"
  by (auto simp: settled_def submitPronunciation_def Let_def setter_defs fetch_def clearIfSet_frame
      split: option.splits)

lemma settled_submitPronunciation_response:
  "settled y \<Longrightarrow> settled (submitPronunciation_response r y)"
  by (cases r)
    (auto simp: settled_def submitPronunciation_response_def Let_def setter_defs outside_defs
      split: prod.splits)

lemma settled_run_callback: "settled y \<Longrightarrow> settled (run_callback cb y)"
  by (cases cb) (auto simp: settled_def run_callback_def setter_defs)

lemma pending_ok_nth: "list_all pending_ok ps \<Longrightarrow> k < length ps \<Longrightarrow> pending_ok (ps ! k)"
  by (simp add: list_all_length)

lemma settled_step: "settled y \<Longrightarrow> settled (step e y)"
proof (cases e)
  case (Navigate p random)
  assume "settled y"
  then have "list_all pending_ok (inflight (setActivePage p y))" by (simp add: settled_def setter_defs)
  then show ?thesis using Navigate \<open>settled y\<close> by (simp add: effect_page_settled)
next
  case (PoolLoaded ws random)
  assume "settled y"
  then have "list_all pending_ok (inflight (setWordPool ws y))" by (simp add: settled_def setter_defs)
  then show ?thesis using PoolLoaded by (simp add: effect_page_settled Let_def effect_wordPool_length_inflight)
next
  case (LanguageChanged l random)
  assume "settled y"
  then have "list_all pending_ok (inflight (setLanguageSet l y))" by (simp add: settled_def setter_defs)
  then show ?thesis using LanguageChanged \<open>settled y\<close> by (simp add: effect_page_settled)
next
  case (StatsLoaded st)
  assume "settled y" then show ?thesis using StatsLoaded by (simp add: settled_def setter_defs)
next
  case (Typed v)
  assume "settled y" then show ?thesis using Typed by (simp add: settled_def setter_defs)
next
  case SubmitPressed
  assume "settled y" then show ?thesis using SubmitPressed by (simp add: settled_handlePracticeSubmit)
next
  case SkipPressed
  assume "settled y" then show ?thesis using SkipPressed by (simp add: settled_handleSkip)
next
  case NextPronunciationPressed
  assume "settled y" then show ?thesis using NextPronunciationPressed by (simp add: settled_nextPronunciationWord)
next
  case PronunciationSkipPressed
  assume "settled y" then show ?thesis using PronunciationSkipPressed by (simp add: settled_handlePronunciationSkip)
next
  case (EndingsOptionPressed opt)
  assume "settled y" then show ?thesis using EndingsOptionPressed by (simp add: settled_handleEndingsAnswer)
next
  case (PracticeValidateArrived k r)
  assume s: "settled y"
  then have "list_all pending_ok (inflight y)" by (simp add: settled_def)
  from pending_ok_nth [OF this, of k] settled_take_out [OF s, of k]
  show ?thesis using PracticeValidateArrived s
    by (auto simp: settled_submit_response split: pending.splits)
next
  case (PracticeSkipArrived k r)
  assume s: "settled y"
  then have "list_all pending_ok (inflight y)" by (simp add: settled_def)
  from pending_ok_nth [OF this, of k] settled_take_out [OF s, of k]
  show ?thesis using PracticeSkipArrived s
    by (auto simp: settled_skip_response split: pending.splits)
next
  case (PronunciationSkipArrived k r)
  assume s: "settled y"
  then have "list_all pending_ok (inflight y)" by (simp add: settled_def)
  from pending_ok_nth [OF this, of k] settled_take_out [OF s, of k]
  show ?thesis using PronunciationSkipArrived s
    by (auto simp: settled_pronunciation_skip_response split: pending.splits)
next
  case (VerbsValidateArrived k r)
  assume s: "settled y"
  from settled_take_out [OF s, of k]
  show ?thesis using VerbsValidateArrived s
    by (auto simp: settled_endings_response split: pending.splits)
next
  case (VerbsQuestionArrived k r)
  assume s: "settled y"
  from settled_take_out [OF s, of k]
  show ?thesis using VerbsQuestionArrived s
    by (auto simp: settled_question_response split: pending.splits)
next
  case EndingsSkipPressed
  assume "settled y" then show ?thesis using EndingsSkipPressed by (simp add: settled_handleEndingsSkip)
next
  case (EndingsSkipValidateArrived k r)
  assume s: "settled y"
  from settled_take_out [OF s, of k]
  show ?thesis using EndingsSkipValidateArrived s
    by (auto simp: settled_endings_skip_validated split: pending.splits)
next
  case (EndingsSkipStatsArrived k r)
  assume s: "settled y"
  from settled_take_out [OF s, of k]
  show ?thesis using EndingsSkipStatsArrived s
    by (auto simp: settled_endings_skip_stats split: pending.splits)
next
  case (EndingsStatsLoaded st)
  assume "settled y" then show ?thesis using EndingsStatsLoaded by (simp add: settled_def setter_defs)
next
  case RecordPressed
  assume "settled y" then show ?thesis using RecordPressed by (simp add: settled_startRecording)
next
  case (UserMediaArrived k granted)
  assume s: "settled y"
  from settled_take_out [OF s, of k]
  show ?thesis using UserMediaArrived s
    by (auto simp: settled_startRecording_response split: pending.splits)
next
  case StopPressed
  assume "settled y" then show ?thesis using StopPressed by (simp add: settled_stopRecording)
next
  case (RecorderStopped k)
  assume s: "settled y"
  from settled_take_out [OF s, of k]
  show ?thesis using RecorderStopped s
    by (auto simp: settled_submitPronunciation split: pending.splits)
next
  case (PronunciationArrived k r)
  assume s: "settled y"
  from settled_take_out [OF s, of k]
  show ?thesis using PronunciationArrived s
    by (auto simp: settled_submitPronunciation_response split: pending.splits)
next
  case (TimerFired t)
  assume s: "settled y"
  then have "settled (y\<lparr>timers := filter (\<lambda>(t', _). t' \<noteq> t) (timers y)\<rparr>)" by (simp add: settled_def)
  then show ?thesis using TimerFired s
    by (auto simp: settled_run_callback split: option.splits)
qed

lemma settled_init: "settled init"
  by (simp add: settled_def init_def word_page_def)

lemma reachable_settled: "reachable y \<Longrightarrow> settled y"
  by (induction rule: reachable.induct) (simp_all add: settled_init settled_step)

section \<open>Evaluating the examples\<close>

lemma draw_zeros: "draw (zeros i) i = 0"
  by (simp add: zeros_def draw_def Random_inverse binary64_def)

lemma shuffle_zeros2: "shuffleArray zeros [a, b] = [b, a]"
  by (simp add: shuffleArray_def Let_def draw_zeros)

lemma shuffle_halves2: "shuffleArray halves [a, b] = [a, b]"
  by (simp add: shuffleArray_def Let_def draw_halves [unfolded One_nat_def])


lemma practising_eq:
  "practising =
     init\<lparr>ui := (ui init)\<lparr>activePage := Translation, wordPool := [wordA, wordB],
                           shuffledWords := [wordB, wordA], answer := str ''cat''\<rparr>\<rparr>"
  by (simp add: practising_def run_def init_def Let_def effect_page_def effect_wordPool_length_def
      setter_defs shuffle_zeros2 derived_defs)

lemma reachable_run: "reachable y \<Longrightarrow> reachable (run es y)"
proof (induction es arbitrary: y)
  case Nil
  then show ?case by (simp add: run_def)
next
  case (Cons e es)
  from Cons.IH [OF reachable_step [OF Cons.prems, of e]] show ?case by (simp add: run_def)
qed

lemma reachable_practising: "reachable practising"
  unfolding practising_def by (rule reachable_run) (rule reachable_init)

section \<open>Properties of the handlers\<close>

lemma fetches_append [simp]: "fetches (a @ b) = fetches a @ fetches b"
  by (simp add: fetches_def)

lemma fetches_simps [simp]:
  "fetches [] = []" "fetches [Fetch r] = [r]" "fetches [ClearTimeout t] = []"
  "fetches [SetTimeout t c d] = []" "fetches [ConsoleError] = []"
  by (simp_all add: fetches_def)

lemma clearIfSet_fetches: "fetches (trace (clearIfSet r y)) = fetches (trace y)"
  by (simp add: clearIfSet_def clearTimeout_def split: option.splits)

lemma currentWord_direction: "currentWord u = Some w \<Longrightarrow> \<exists>d. practiceDirection u = Some d"
  by (auto simp: currentWord_def split: if_splits)

lemma handlePracticeSubmit_blank:
  assumes "currentWord (ui y) = Some w" and "trim (answer (ui y)) = []"
  shows "inflight (handlePracticeSubmit y) = inflight y"
    and "fetches (trace (handlePracticeSubmit y)) = fetches (trace y)"
    and "ui (handlePracticeSubmit y) =
        (ui y)\<lparr>practiceStatus := Some \<lparr>kind = Error, message = str ''Try answering before submitting.''\<rparr>\<rparr>"
proof -
  from assms(1) obtain d where d: "practiceDirection (ui y) = Some d"
    using currentWord_direction by blast
  show "inflight (handlePracticeSubmit y) = inflight y"
    using assms d by (simp add: handlePracticeSubmit_def Let_def setPracticeStatus_def clearIfSet_frame)
  show "fetches (trace (handlePracticeSubmit y)) = fetches (trace y)"
    using assms d by (simp add: handlePracticeSubmit_def Let_def setPracticeStatus_def clearIfSet_fetches)
  show "ui (handlePracticeSubmit y) =
        (ui y)\<lparr>practiceStatus := Some \<lparr>kind = Error, message = str ''Try answering before submitting.''\<rparr>\<rparr>"
    using assms d by (simp add: handlePracticeSubmit_def Let_def setPracticeStatus_def clearIfSet_frame)
qed

lemma handlePracticeSubmit_request:
  assumes "currentWord (ui y) = Some w" and "practiceDirection (ui y) = Some d"
    and "trim (answer (ui y)) \<noteq> []"
  shows "inflight (handlePracticeSubmit y) = inflight y @ [AwaitPracticeValidate (ui y)]"
    and "fetches (trace (handlePracticeSubmit y)) =
       fetches (trace y) @ [POST_practice_validate (word_id w) (languageSet (ui y)) (direction_name d) (answer (ui y))]"
    and "ui (handlePracticeSubmit y) = ui y"
  using assms
  by (simp_all add: handlePracticeSubmit_def Let_def fetch_def clearIfSet_frame clearIfSet_fetches)

lemma handleSkip_request:
  assumes "currentWord (ui y) = Some w" and "practiceDirection (ui y) = Some d"
  shows "inflight (handleSkip y) = inflight y @ [AwaitPracticeSkip (ui y)]"
    and "fetches (trace (handleSkip y)) =
       fetches (trace y) @ [POST_practice_skip (word_id w) (languageSet (ui y)) (direction_name d) []]"
    and "ui (handleSkip y) = ui y"
  using assms
  by (simp_all add: handleSkip_def Let_def fetch_def clearIfSet_frame clearIfSet_fetches)

lemma submit_response_index:
  "practiceIndex (ui (handlePracticeSubmit_response snap r t)) =
     js_rem (js_add (practiceIndex (ui t)) 1) (length (wordPool snap))"
  by (cases r)
    (simp_all add: handlePracticeSubmit_response_def Let_def setter_defs outside_defs split: prod.splits)

lemma skip_response_index:
  "practiceIndex (ui (handleSkip_response snap r t)) =
     js_rem (js_add (practiceIndex (ui t)) 1) (length (shuffledWords snap))"
  by (cases r)
    (simp_all add: handleSkip_response_def Let_def setter_defs outside_defs split: prod.splits)

lemma submit_response_failed:
  assumes "r = Rejected \<or> r = NotOk"
  shows "ui (handlePracticeSubmit_response snap r t) =
     (ui t)\<lparr>practiceIndex := js_rem (js_add (practiceIndex (ui t)) 1) (length (wordPool snap)),
            answer := [],
            practiceStatus :=
              Some \<lparr>kind = Error, message = str ''Progress could not be recorded. Try again.''\<rparr>\<rparr>"
  using assms
  by (auto simp: handlePracticeSubmit_response_def Let_def setter_defs outside_defs)

lemma settled_current:
  assumes "settled y" and "currentWord (ui y) = Some w"
  shows "length (wordPool (ui y)) = length (shuffledWords (ui y))" and "0 < length (shuffledWords (ui y))"
    and "\<exists>p. practiceIndex (ui y) = Num p"
proof -
  from assms have m: "mset (shuffledWords (ui y)) = mset (wordPool (ui y))"
    by (auto simp: settled_def derived_defs split: if_splits)
  then show "length (wordPool (ui y)) = length (shuffledWords (ui y))"
    by (metis size_mset)
  from assms show "0 < length (shuffledWords (ui y))"
    by (auto simp: derived_defs split: if_splits)
  from assms have "is_number (practiceIndex (ui y))" by (simp add: settled_def)
  then show "\<exists>p. practiceIndex (ui y) = Num p" by (cases "practiceIndex (ui y)") simp_all
qed

text \<open>
  Claim C2. In every reachable state with a current word and an answer whose trimmed
  text is not empty, submitting issues the request, and when the request fails (the
  \<open>fetch\<close> rejects, or the response has a non-success status) the cursor becomes
  (previous + 1) mod pool length, where the word pool and the shuffled pool have the
  same positive length, the answer input becomes the empty string, the status is the
  error "Progress could not be recorded. Try again.", and nothing else of the state
  changes, so the statistics are those from before the call. When other events have
  run between the request and its failure, the same three fields are set on the state
  of that moment, with the pool length of the render that submitted.
\<close>

theorem handlePracticeSubmit_request_fails:
  assumes "reachable y" and "currentWord (ui y) = Some w" and "trim (answer (ui y)) \<noteq> []"
    and "r = Rejected \<or> r = NotOk"
  shows "\<exists>p n. practiceIndex (ui y) = Num p
     \<and> n = length (wordPool (ui y)) \<and> n = length (shuffledWords (ui y)) \<and> 0 < n
     \<and> inflight (step SubmitPressed y) = inflight y @ [AwaitPracticeValidate (ui y)]
     \<and> ui (step SubmitPressed y) = ui y
     \<and> ui (step (PracticeValidateArrived (length (inflight y)) r) (step SubmitPressed y)) =
         (ui y)\<lparr>practiceIndex := Num ((p + 1) mod n),
                answer := [],
                practiceStatus :=
                  Some \<lparr>kind = Error, message = str ''Progress could not be recorded. Try again.''\<rparr>\<rparr>
     \<and> stats (ui (step (PracticeValidateArrived (length (inflight y)) r) (step SubmitPressed y))) = stats (ui y)
     \<and> (\<forall>t q. practiceIndex (ui t) = Num q \<longrightarrow>
           ui (handlePracticeSubmit_response (ui y) r t) =
             (ui t)\<lparr>practiceIndex := Num ((q + 1) mod n),
                    answer := [],
                    practiceStatus :=
                      Some \<lparr>kind = Error, message = str ''Progress could not be recorded. Try again.''\<rparr>\<rparr>)"
proof -
  have s: "settled y" using assms(1) by (rule reachable_settled)
  from settled_current [OF s assms(2)] obtain p where
    p: "practiceIndex (ui y) = Num p" and
    n: "length (wordPool (ui y)) = length (shuffledWords (ui y))" "0 < length (shuffledWords (ui y))"
    by blast
  from assms(2) obtain d where d: "practiceDirection (ui y) = Some d"
    using currentWord_direction by blast
  note req = handlePracticeSubmit_request [OF assms(2) d assms(3)]
  let ?y1 = "step SubmitPressed y"
  have i1: "inflight ?y1 = inflight y @ [AwaitPracticeValidate (ui y)]" and u1: "ui ?y1 = ui y"
    using req by simp_all
  have arr: "step (PracticeValidateArrived (length (inflight y)) r) ?y1 =
      handlePracticeSubmit_response (ui y) r (take_out (length (inflight y)) ?y1)"
    using i1 by simp
  have ut: "ui (take_out (length (inflight y)) ?y1) = ui y"
    using u1 by (simp add: take_out_ui)
  have fin: "ui (step (PracticeValidateArrived (length (inflight y)) r) ?y1) =
         (ui y)\<lparr>practiceIndex := Num ((p + 1) mod length (wordPool (ui y))),
                answer := [],
                practiceStatus :=
                  Some \<lparr>kind = Error, message = str ''Progress could not be recorded. Try again.''\<rparr>\<rparr>"
    unfolding arr submit_response_failed [OF assms(4)] ut using p n by simp
  have late: "\<forall>t q. practiceIndex (ui t) = Num q \<longrightarrow>
           ui (handlePracticeSubmit_response (ui y) r t) =
             (ui t)\<lparr>practiceIndex := Num ((q + 1) mod length (wordPool (ui y))),
                    answer := [],
                    practiceStatus :=
                      Some \<lparr>kind = Error, message = str ''Progress could not be recorded. Try again.''\<rparr>\<rparr>"
    using n by (simp add: submit_response_failed [OF assms(4)])
  have st: "stats (ui (step (PracticeValidateArrived (length (inflight y)) r) ?y1)) = stats (ui y)"
    unfolding fin by simp
  show ?thesis
    using p n i1 u1 fin late st by (intro exI [of _ p] exI [of _ "length (wordPool (ui y))"]) simp
qed


lemma practising_current: "currentWord (ui practising) = Some wordB"
  by (simp add: practising_eq init_def derived_defs)

lemma practising_direction: "practiceDirection (ui practising) = Some TranslationDir"
  by (simp add: practising_eq init_def derived_defs)

lemma practising_answer: "trim (answer (ui practising)) \<noteq> []"
  by (simp add: practising_eq init_def trim_def str_def isWhiteSpace_def)

theorem handlePracticeSubmit_request_fails_witness:
  "reachable practising
   \<and> currentWord (ui practising) = Some wordB
   \<and> trim (answer (ui practising)) \<noteq> []
   \<and> practiceIndex (ui (step (PracticeValidateArrived 0 Rejected) (step SubmitPressed practising))) = Num 1
   \<and> answer (ui (step (PracticeValidateArrived 0 Rejected) (step SubmitPressed practising))) = []
   \<and> practiceStatus (ui (step (PracticeValidateArrived 0 Rejected) (step SubmitPressed practising))) =
       Some \<lparr>kind = Error, message = str ''Progress could not be recorded. Try again.''\<rparr>
   \<and> stats (ui (step (PracticeValidateArrived 0 Rejected) (step SubmitPressed practising))) = None"
proof -
  have i: "inflight practising = []" "practiceIndex (ui practising) = Num 0"
    "length (wordPool (ui practising)) = 2" "stats (ui practising) = None"
    by (simp_all add: practising_eq init_def)
  from handlePracticeSubmit_request_fails
         [OF reachable_practising practising_current practising_answer, of Rejected]
  obtain p n where
    "practiceIndex (ui practising) = Num p" "n = length (wordPool (ui practising))"
    "ui (step (PracticeValidateArrived (length (inflight practising)) Rejected) (step SubmitPressed practising)) =
         (ui practising)\<lparr>practiceIndex := Num ((p + 1) mod n),
                answer := [],
                practiceStatus :=
                  Some \<lparr>kind = Error, message = str ''Progress could not be recorded. Try again.''\<rparr>\<rparr>"
    by auto
  with i show ?thesis
    using reachable_practising practising_current practising_answer by simp
qed

text \<open>
  Claim C3. In every state with a current word, \<open>handlePracticeSubmit\<close> on an answer
  whose trimmed text is empty issues no request (nothing is added to the requests in
  flight, and the trace gains no \<open>fetch\<close>), sets the error status "Try answering
  before submitting.", and changes nothing else of the state: the cursors, the word
  pool, the shuffled pool and the statistics are as before.
\<close>

theorem handlePracticeSubmit_blank_answer:
  assumes "currentWord (ui y) \<noteq> None" and "trim (answer (ui y)) = []"
  shows "inflight (handlePracticeSubmit y) = inflight y
     \<and> fetches (trace (handlePracticeSubmit y)) = fetches (trace y)
     \<and> practiceStatus (ui (handlePracticeSubmit y)) =
         Some \<lparr>kind = Error, message = str ''Try answering before submitting.''\<rparr>
     \<and> practiceIndex (ui (handlePracticeSubmit y)) = practiceIndex (ui y)
     \<and> pronunciationIndex (ui (handlePracticeSubmit y)) = pronunciationIndex (ui y)
     \<and> wordPool (ui (handlePracticeSubmit y)) = wordPool (ui y)
     \<and> shuffledWords (ui (handlePracticeSubmit y)) = shuffledWords (ui y)
     \<and> stats (ui (handlePracticeSubmit y)) = stats (ui y)
     \<and> ui (handlePracticeSubmit y) =
         (ui y)\<lparr>practiceStatus := Some \<lparr>kind = Error, message = str ''Try answering before submitting.''\<rparr>\<rparr>"
proof -
  from assms(1) obtain w where "currentWord (ui y) = Some w"
    by auto
  from handlePracticeSubmit_blank [OF this assms(2)] show ?thesis
    by simp
qed

theorem handlePracticeSubmit_blank_answer_witness:
  "currentWord (ui (step (Typed (str ''  '')) practising)) \<noteq> None
   \<and> trim (answer (ui (step (Typed (str ''  '')) practising))) = []
   \<and> inflight (handlePracticeSubmit (step (Typed (str ''  '')) practising)) = []
   \<and> fetches (trace (handlePracticeSubmit (step (Typed (str ''  '')) practising))) = []
   \<and> practiceStatus (ui (handlePracticeSubmit (step (Typed (str ''  '')) practising))) =
       Some \<lparr>kind = Error, message = str ''Try answering before submitting.''\<rparr>
   \<and> practiceIndex (ui (handlePracticeSubmit (step (Typed (str ''  '')) practising))) = Num 0"
proof -
  let ?y = "step (Typed (str ''  '')) practising"
  have y: "?y = practising\<lparr>ui := (ui practising)\<lparr>answer := [32, 32]\<rparr>\<rparr>"
    using practising_current by (simp add: setter_defs str_def)
  have c: "currentWord (ui ?y) \<noteq> None"
    unfolding y by (simp add: practising_eq init_def derived_defs)
  have t: "trim (answer (ui ?y)) = []"
    unfolding y by (simp add: trim_def isWhiteSpace_def)
  from handlePracticeSubmit_blank_answer [OF c t] c t show ?thesis
    unfolding y by (simp add: practising_eq init_def)
qed

text \<open>
  Claim C8. In every state with a current word, \<open>handleSkip\<close> sends the word's id,
  the language set and the direction with the empty string as the answer to
  \<open>practice/skip\<close>; on a successful response it records a feedback with
  \<open>skipped = true\<close>, \<open>wasCorrect = false\<close> and \<open>userAnswer = ""\<close>, whatever has happened in
  between, and the view shows no character diff for it. The view shows no character
  diff for any feedback whose \<open>skipped\<close> flag is true.
\<close>

theorem handleSkip_marks_skipped:
  assumes "currentWord (ui y) = Some w"
  shows "\<exists>d. practiceDirection (ui y) = Some d
     \<and> fetches (trace (handleSkip y)) =
         fetches (trace y) @ [POST_practice_skip (word_id w) (languageSet (ui y)) (direction_name d) []]
     \<and> inflight (handleSkip y) = inflight y @ [AwaitPracticeSkip (ui y)]
     \<and> (\<forall>payload t.
           lastAnswer (ui (handleSkip_response (ui y) (Ok payload) t)) =
             Some \<lparr>userAnswer = [],
                   correctAnswer = skip_correct_answer payload,
                   alternatives = (case skip_alternatives_field payload of None \<Rightarrow> [] | Some a \<Rightarrow> a),
                   wasCorrect = False,
                   direction = Some d,
                   skipped = True\<rparr>
           \<and> spellingDiffShown toLowerCase (ui (handleSkip_response (ui y) (Ok payload) t)) = None)
     \<and> (\<forall>u la. lastAnswer u = Some la \<and> skipped la \<longrightarrow> spellingDiffShown toLowerCase u = None)"
proof -
  from assms obtain d where d: "practiceDirection (ui y) = Some d"
    using currentWord_direction by blast
  have l: "\<And>payload t. lastAnswer (ui (handleSkip_response (ui y) (Ok payload) t)) =
             Some \<lparr>userAnswer = [],
                   correctAnswer = skip_correct_answer payload,
                   alternatives = (case skip_alternatives_field payload of None \<Rightarrow> [] | Some a \<Rightarrow> a),
                   wasCorrect = False,
                   direction = Some d,
                   skipped = True\<rparr>"
    using d by (simp add: handleSkip_response_def Let_def setter_defs outside_defs split: prod.splits)
  have v: "\<forall>u la. lastAnswer u = Some la \<and> skipped la \<longrightarrow> spellingDiffShown toLowerCase u = None"
    by (simp add: spellingDiffShown_def)
  have "\<forall>payload t.
           lastAnswer (ui (handleSkip_response (ui y) (Ok payload) t)) =
             Some \<lparr>userAnswer = [],
                   correctAnswer = skip_correct_answer payload,
                   alternatives = (case skip_alternatives_field payload of None \<Rightarrow> [] | Some a \<Rightarrow> a),
                   wasCorrect = False,
                   direction = Some d,
                   skipped = True\<rparr>
           \<and> spellingDiffShown toLowerCase (ui (handleSkip_response (ui y) (Ok payload) t)) = None"
    using l by (simp add: spellingDiffShown_def)
  with d v handleSkip_request [OF assms d] show ?thesis
    by (intro exI [of _ d]) simp
qed

theorem handleSkip_marks_skipped_witness:
  "currentWord (ui practising) = Some wordB
   \<and> fetches (trace (handleSkip practising)) =
       [POST_practice_skip 2 (str ''english'') (str ''translation'') []]
   \<and> inflight (handleSkip practising) = [AwaitPracticeSkip (ui practising)]
   \<and> lastAnswer (ui (handleSkip_response (ui practising)
         (Ok \<lparr>skip_correct_answer = str ''dog'', skip_alternatives_field = None, skip_stats_field = sample_stats\<rparr>)
         (handleSkip practising))) =
       Some \<lparr>userAnswer = [], correctAnswer = str ''dog'', alternatives = [], wasCorrect = False,
             direction = Some TranslationDir, skipped = True\<rparr>
   \<and> spellingDiffShown asciiLowerCase (ui (handleSkip_response (ui practising)
         (Ok \<lparr>skip_correct_answer = str ''dog'', skip_alternatives_field = None, skip_stats_field = sample_stats\<rparr>)
         (handleSkip practising))) = None"
proof -
  from handleSkip_marks_skipped [OF practising_current, of asciiLowerCase]
  obtain d where d: "practiceDirection (ui practising) = Some d"
    and f: "fetches (trace (handleSkip practising)) =
         fetches (trace practising) @
           [POST_practice_skip (word_id wordB) (languageSet (ui practising)) (direction_name d) []]"
    and i: "inflight (handleSkip practising) = inflight practising @ [AwaitPracticeSkip (ui practising)]"
    and l: "\<forall>payload t.
           lastAnswer (ui (handleSkip_response (ui practising) (Ok payload) t)) =
             Some \<lparr>userAnswer = [],
                   correctAnswer = skip_correct_answer payload,
                   alternatives = (case skip_alternatives_field payload of None \<Rightarrow> [] | Some a \<Rightarrow> a),
                   wasCorrect = False,
                   direction = Some d,
                   skipped = True\<rparr>
           \<and> spellingDiffShown asciiLowerCase (ui (handleSkip_response (ui practising) (Ok payload) t)) = None"
    by blast
  from d have d': "d = TranslationDir"
    using practising_direction by simp
  have e: "trace practising = []" "inflight practising = []" "languageSet (ui practising) = str ''english''"
    by (simp_all add: practising_eq init_def)
  show ?thesis
    using practising_current f i l
    by (simp add: d' e direction_name_def wordB_def)
qed

lemma run_callback_frame:
  "trace (run_callback cb z) = trace z" "inflight (run_callback cb z) = inflight z"
  "endingsQuestion (ui (run_callback cb z)) = endingsQuestion (ui z)"
  by (cases cb; simp add: run_callback_def setter_defs)+

text \<open>
  Claim C9. On a successful validation response \<open>handleEndingsAnswer\<close> stores the
  statistics of the payload and issues the request for the next question in the same
  run, and only then schedules the auto-hide timeout: the request precedes the
  \<open>setTimeout\<close> in the trace, and when the run ends the request is in flight while the
  timeout is pending. The timeout, when it fires, issues no request and leaves the
  question alone; the question changes when the response to the request arrives.
\<close>

theorem handleEndingsAnswer_fetches_next_at_once:
  "endingsStats (ui (handleEndingsAnswer_response snap (Ok payload) y)) = Some (verb_stats_field payload)
   \<and> trace (handleEndingsAnswer_response snap (Ok payload) y) =
        trace y @ [Fetch GET_verbs_question, SetTimeout (nextTimerId y) HideEndings STATUS_HIDE_DELAY]
   \<and> inflight (handleEndingsAnswer_response snap (Ok payload) y) = inflight y @ [AwaitVerbsQuestion]
   \<and> timers (handleEndingsAnswer_response snap (Ok payload) y) = timers y @ [(nextTimerId y, HideEndings)]
   \<and> endingsStatusTimeoutRef (handleEndingsAnswer_response snap (Ok payload) y) = Some (nextTimerId y)
   \<and> trace (run_callback cb z) = trace z
   \<and> inflight (run_callback cb z) = inflight z
   \<and> endingsQuestion (ui (run_callback cb z)) = endingsQuestion (ui z)
   \<and> endingsQuestion (ui (fetchEndingsQuestion_response (Ok q) z)) = Some q"
proof -
  have "endingsQuestion (ui (fetchEndingsQuestion_response (Ok q) z)) = Some q"
    by (simp add: fetchEndingsQuestion_response_def setter_defs)
  moreover have "endingsStats (ui (handleEndingsAnswer_response snap (Ok payload) y)) = Some (verb_stats_field payload)
   \<and> trace (handleEndingsAnswer_response snap (Ok payload) y) =
        trace y @ [Fetch GET_verbs_question, SetTimeout (nextTimerId y) HideEndings STATUS_HIDE_DELAY]
   \<and> inflight (handleEndingsAnswer_response snap (Ok payload) y) = inflight y @ [AwaitVerbsQuestion]
   \<and> timers (handleEndingsAnswer_response snap (Ok payload) y) = timers y @ [(nextTimerId y, HideEndings)]
   \<and> endingsStatusTimeoutRef (handleEndingsAnswer_response snap (Ok payload) y) = Some (nextTimerId y)"
    by (simp add: handleEndingsAnswer_response_def Let_def setter_defs outside_defs
        fetchEndingsQuestion_def split: prod.splits)
  ultimately show ?thesis
    by (simp add: run_callback_frame)
qed

text \<open>
  Claim C10. In translation and writing mode the current word is read from the
  shuffled pool. After the response, \<open>handlePracticeSubmit\<close> advances the cursor
  modulo the length of \<open>wordPool\<close> and \<open>handleSkip\<close> modulo the length of
  \<open>shuffledWords\<close>, both as the render that started the action saw them. When the two
  pools have the same positive length \<open>n\<close> and the cursor is \<open>p\<close>, both set the cursor
  to \<open>(p + 1) mod n\<close>: after the response of a skip, and after the response of a submit,
  which is issued when the trimmed answer is not empty.
\<close>

theorem cursor_moduli_agree:
  "(practiceDirection snap \<noteq> None \<and> shuffledWords snap \<noteq> [] \<longrightarrow>
      currentWord snap = js_index (shuffledWords snap) (js_rem (practiceIndex snap) (length (shuffledWords snap))))
   \<and> practiceIndex (ui (handlePracticeSubmit_response snap r t)) =
       js_rem (js_add (practiceIndex (ui t)) 1) (length (wordPool snap))
   \<and> practiceIndex (ui (handleSkip_response snap k t)) =
       js_rem (js_add (practiceIndex (ui t)) 1) (length (shuffledWords snap))
   \<and> (length (wordPool snap) = n \<and> length (shuffledWords snap) = n \<and> 0 < n
        \<and> practiceIndex (ui t) = Num p \<longrightarrow>
      practiceIndex (ui (handlePracticeSubmit_response snap r t)) = Num ((p + 1) mod n)
      \<and> practiceIndex (ui (handleSkip_response snap k t)) = Num ((p + 1) mod n))
   \<and> (length (wordPool (ui y)) = n \<and> length (shuffledWords (ui y)) = n \<and> 0 < n
        \<and> practiceIndex (ui y) = Num p \<and> practiceDirection (ui y) \<noteq> None \<longrightarrow>
      currentWord (ui y) = Some (shuffledWords (ui y) ! (p mod n))
      \<and> practiceIndex (ui (step (PracticeSkipArrived (length (inflight y)) k) (step SkipPressed y)))
          = Num ((p + 1) mod n)
      \<and> (trim (answer (ui y)) \<noteq> [] \<longrightarrow>
          practiceIndex (ui (step (PracticeValidateArrived (length (inflight y)) r) (step SubmitPressed y)))
            = Num ((p + 1) mod n)))"
proof -
  have a: "practiceDirection snap \<noteq> None \<and> shuffledWords snap \<noteq> [] \<longrightarrow>
      currentWord snap = js_index (shuffledWords snap) (js_rem (practiceIndex snap) (length (shuffledWords snap)))"
    by (simp add: currentWord_def)
  have b: "length (wordPool snap) = n \<and> length (shuffledWords snap) = n \<and> 0 < n
        \<and> practiceIndex (ui t) = Num p \<longrightarrow>
      practiceIndex (ui (handlePracticeSubmit_response snap r t)) = Num ((p + 1) mod n)
      \<and> practiceIndex (ui (handleSkip_response snap k t)) = Num ((p + 1) mod n)"
    by (simp add: submit_response_index skip_response_index)
  have c: "length (wordPool (ui y)) = n \<and> length (shuffledWords (ui y)) = n \<and> 0 < n
        \<and> practiceIndex (ui y) = Num p \<and> practiceDirection (ui y) \<noteq> None \<longrightarrow>
      currentWord (ui y) = Some (shuffledWords (ui y) ! (p mod n))
      \<and> practiceIndex (ui (step (PracticeSkipArrived (length (inflight y)) k) (step SkipPressed y)))
          = Num ((p + 1) mod n)
      \<and> (trim (answer (ui y)) \<noteq> [] \<longrightarrow>
          practiceIndex (ui (step (PracticeValidateArrived (length (inflight y)) r) (step SubmitPressed y)))
            = Num ((p + 1) mod n))"
  proof (intro impI, elim conjE)
    assume h: "length (wordPool (ui y)) = n" "length (shuffledWords (ui y)) = n" "0 < n"
      "practiceIndex (ui y) = Num p" "practiceDirection (ui y) \<noteq> None"
    then obtain d where d: "practiceDirection (ui y) = Some d"
      by auto
    have cw: "currentWord (ui y) = Some (shuffledWords (ui y) ! (p mod n))"
      using h by (simp add: currentWord_def)
    note sk = handleSkip_request [OF cw d]
    have "step (PracticeSkipArrived (length (inflight y)) k) (step SkipPressed y) =
        handleSkip_response (ui y) k (take_out (length (inflight y)) (handleSkip y))"
      using sk by simp
    then have s1: "practiceIndex (ui (step (PracticeSkipArrived (length (inflight y)) k) (step SkipPressed y)))
          = Num ((p + 1) mod n)"
      using h sk by (simp add: skip_response_index take_out_ui)
    have s2: "trim (answer (ui y)) \<noteq> [] \<longrightarrow>
          practiceIndex (ui (step (PracticeValidateArrived (length (inflight y)) r) (step SubmitPressed y)))
            = Num ((p + 1) mod n)"
    proof
      assume t: "trim (answer (ui y)) \<noteq> []"
      note su = handlePracticeSubmit_request [OF cw d t]
      have "step (PracticeValidateArrived (length (inflight y)) r) (step SubmitPressed y) =
        handlePracticeSubmit_response (ui y) r (take_out (length (inflight y)) (handlePracticeSubmit y))"
        using su by simp
      then show "practiceIndex (ui (step (PracticeValidateArrived (length (inflight y)) r) (step SubmitPressed y)))
            = Num ((p + 1) mod n)"
        using h su by (simp add: submit_response_index take_out_ui)
    qed
    from cw s1 s2 show "currentWord (ui y) = Some (shuffledWords (ui y) ! (p mod n))
      \<and> practiceIndex (ui (step (PracticeSkipArrived (length (inflight y)) k) (step SkipPressed y)))
          = Num ((p + 1) mod n)
      \<and> (trim (answer (ui y)) \<noteq> [] \<longrightarrow>
          practiceIndex (ui (step (PracticeValidateArrived (length (inflight y)) r) (step SubmitPressed y)))
            = Num ((p + 1) mod n))"
      by (intro conjI)
  qed
  show ?thesis
    by (intro conjI) (rule a submit_response_index skip_response_index b c)+
qed

theorem cursor_moduli_agree_witness:
  "length (wordPool (ui practising)) = 2 \<and> length (shuffledWords (ui practising)) = 2
   \<and> practiceIndex (ui practising) = Num 0 \<and> practiceDirection (ui practising) \<noteq> None
   \<and> trim (answer (ui practising)) \<noteq> []
   \<and> currentWord (ui practising) = Some wordB
   \<and> practiceIndex (ui (step (PracticeSkipArrived 0 Rejected) (step SkipPressed practising))) = Num 1
   \<and> practiceIndex (ui (step (PracticeValidateArrived 0 NotOk) (step SubmitPressed practising))) = Num 1"
proof -
  have h: "length (wordPool (ui practising)) = 2" "length (shuffledWords (ui practising)) = 2"
    "practiceIndex (ui practising) = Num 0" "practiceDirection (ui practising) \<noteq> None"
    "inflight practising = []" "shuffledWords (ui practising) ! 0 = wordB"
    by (simp_all add: practising_eq init_def derived_defs)
  note t = cursor_moduli_agree [where y = practising and n = 2 and p = 0 and r = NotOk and k = Rejected
      and snap = "ui practising" and t = practising]
  note c = t [THEN conjunct2, THEN conjunct2, THEN conjunct2, THEN conjunct2]
  from c h practising_answer show ?thesis
    by simp
qed

section \<open>Mode switches, pool updates and late responses\<close>














lemma wordA_neq_wordB: "wordA \<noteq> wordB"
  by (simp add: wordA_def wordB_def)

lemma reloaded:
  "ui (step (PoolLoaded [wordA, wordB] halves) practising) =
     (ui init)\<lparr>activePage := Translation, wordPool := [wordA, wordB], shuffledWords := [wordA, wordB]\<rparr>"
  unfolding practising_eq
  by (simp add: init_def Let_def effect_page_def setter_defs shuffle_halves2)

theorem reshuffle_mid_mode_counterexample:
  "reachable practising
   \<and> activePage (ui practising) = Translation
   \<and> shuffledWords (ui practising) = [wordB, wordA]
   \<and> activePage (ui (step (PoolLoaded [wordA, wordB] halves) practising)) = Translation
   \<and> shuffledWords (ui (step (PoolLoaded [wordA, wordB] halves) practising)) = [wordA, wordB]
   \<and> [wordA, wordB] \<noteq> [wordB, wordA]"
  using reachable_practising wordA_neq_wordB unfolding reloaded
  by (simp add: practising_eq init_def)

lemma effect_page_cursors:
  "practiceIndex (ui (effect_page random y)) = Num 0"
  "pronunciationIndex (ui (effect_page random y)) = Num 0"
  "activePage (ui (effect_page random y)) = activePage (ui y)"
  "wordPool (ui (effect_page random y)) = wordPool (ui y)"
  "shuffledWords (ui (effect_page random y)) =
     (if word_page (activePage (ui y)) then shuffleArray random (wordPool (ui y)) else shuffledWords (ui y))"
  by (simp_all add: effect_page_def Let_def setter_defs fetchEndingsQuestion_def fetch_def word_page_def)

lemma effect_wordPool_length_frame:
  "activePage (ui (effect_wordPool_length y)) = activePage (ui y)"
  "wordPool (ui (effect_wordPool_length y)) = wordPool (ui y)"
  "shuffledWords (ui (effect_wordPool_length y)) = shuffledWords (ui y)"
  by (simp_all add: effect_wordPool_length_def setter_defs)

lemma pool_loaded:
  "practiceIndex (ui (step (PoolLoaded ws random) y)) = Num 0"
  "pronunciationIndex (ui (step (PoolLoaded ws random) y)) = Num 0"
  "activePage (ui (step (PoolLoaded ws random) y)) = activePage (ui y)"
  "wordPool (ui (step (PoolLoaded ws random) y)) = ws"
  "shuffledWords (ui (step (PoolLoaded ws random) y)) =
     (if word_page (activePage (ui y)) then shuffleArray random ws else shuffledWords (ui y))"
  by (simp_all add: Let_def effect_page_cursors effect_wordPool_length_frame setter_defs)















lemma handlers_keep_shuffled:
  "shuffledWords (ui (handlePracticeSubmit y)) = shuffledWords (ui y)"
  "shuffledWords (ui (handleSkip y)) = shuffledWords (ui y)"
  "shuffledWords (ui (handlePronunciationSkip y)) = shuffledWords (ui y)"
  "shuffledWords (ui (handleEndingsAnswer opt y)) = shuffledWords (ui y)"
  "shuffledWords (ui (nextPronunciationWord y)) = shuffledWords (ui y)"
  "shuffledWords (ui (run_callback cb y)) = shuffledWords (ui y)"
  "shuffledWords (ui (handleEndingsSkip y)) = shuffledWords (ui y)"
  "shuffledWords (ui (startRecording y)) = shuffledWords (ui y)"
  "shuffledWords (ui (stopRecording y)) = shuffledWords (ui y)"
  "shuffledWords (ui (submitPronunciation snap y)) = shuffledWords (ui y)"
  by (simp_all add: handlePracticeSubmit_def handleSkip_def handlePronunciationSkip_def
      handleEndingsAnswer_def nextPronunciationWord_def run_callback_def handleEndingsSkip_def
      startRecording_def stopRecording_def submitPronunciation_def Let_def setter_defs
      fetch_def clearIfSet_frame split: option.splits timer_callback.splits)

lemma responses_keep_shuffled:
  "shuffledWords (ui (handlePracticeSubmit_response snap r y)) = shuffledWords (ui y)"
  "shuffledWords (ui (handleSkip_response snap sr y)) = shuffledWords (ui y)"
  "shuffledWords (ui (handlePronunciationSkip_response snap sr y)) = shuffledWords (ui y)"
  "shuffledWords (ui (handleEndingsAnswer_response snap vr y)) = shuffledWords (ui y)"
  "shuffledWords (ui (fetchEndingsQuestion_response qr y)) = shuffledWords (ui y)"
  "shuffledWords (ui (handleEndingsSkip_validated snap ur y)) = shuffledWords (ui y)"
  "shuffledWords (ui (handleEndingsSkip_stats snap tr y)) = shuffledWords (ui y)"
  "shuffledWords (ui (startRecording_response snap granted y)) = shuffledWords (ui y)"
  "shuffledWords (ui (submitPronunciation_response pr y)) = shuffledWords (ui y)"
  by (simp_all add: handlePracticeSubmit_response_def handleSkip_response_def
      handlePronunciationSkip_response_def handleEndingsAnswer_response_def
      fetchEndingsQuestion_response_def fetchEndingsQuestion_def handleEndingsSkip_validated_def
      handleEndingsSkip_stats_def startRecording_response_def submitPronunciation_response_def
      Let_def setter_defs outside_defs
      split: outcome.splits prod.splits option.splits)

text \<open>
  Claim C6, amended. The shuffled pool is replaced by a fresh shuffle of the word pool
  every time the effect on \<open>activePage\<close>, \<open>languageSet\<close> and \<open>wordPool\<close> runs while the
  active page is a word-based practice mode: on entry into such a mode, and also
  while the learner remains in it, whenever the word pool is replaced or the language
  set changes. A replacement of the word pool leaves the page as it is and resets
  both cursors to 0. No other event changes the shuffled pool.
\<close>

theorem reshuffle_whenever_the_effect_runs:
  "shuffledWords (ui (step e y)) =
     (case e of
        Navigate p random \<Rightarrow>
          if p \<noteq> activePage (ui y) \<and> word_page p
          then shuffleArray random (wordPool (ui y)) else shuffledWords (ui y)
      | PoolLoaded ws random \<Rightarrow>
          if word_page (activePage (ui y)) then shuffleArray random ws else shuffledWords (ui y)
      | LanguageChanged l random \<Rightarrow>
          if l \<noteq> languageSet (ui y) \<and> word_page (activePage (ui y))
          then shuffleArray random (wordPool (ui y)) else shuffledWords (ui y)
      | _ \<Rightarrow> shuffledWords (ui y))
   \<and> activePage (ui (step (PoolLoaded ws random) y)) = activePage (ui y)
   \<and> practiceIndex (ui (step (PoolLoaded ws random) y)) = Num 0
   \<and> pronunciationIndex (ui (step (PoolLoaded ws random) y)) = Num 0"
proof -
  have "shuffledWords (ui (step e y)) =
     (case e of
        Navigate p random \<Rightarrow>
          if p \<noteq> activePage (ui y) \<and> word_page p
          then shuffleArray random (wordPool (ui y)) else shuffledWords (ui y)
      | PoolLoaded ws random \<Rightarrow>
          if word_page (activePage (ui y)) then shuffleArray random ws else shuffledWords (ui y)
      | LanguageChanged l random \<Rightarrow>
          if l \<noteq> languageSet (ui y) \<and> word_page (activePage (ui y))
          then shuffleArray random (wordPool (ui y)) else shuffledWords (ui y)
      | _ \<Rightarrow> shuffledWords (ui y))"
  proof (cases e)
    case (Navigate p random)
    then show ?thesis
      by (simp add: effect_page_cursors setter_defs)
  next
    case (PoolLoaded ws random)
    then show ?thesis
      by (simp add: pool_loaded del: step.simps)
  next
    case (LanguageChanged l random)
    then show ?thesis
      by (simp add: effect_page_cursors setter_defs)
  next
    case (StatsLoaded st)
    then show ?thesis by (simp add: setter_defs)
  next
    case (Typed v)
    then show ?thesis by (simp add: setter_defs)
  next
    case SubmitPressed
    then show ?thesis by (simp add: handlers_keep_shuffled)
  next
    case SkipPressed
    then show ?thesis by (simp add: handlers_keep_shuffled)
  next
    case NextPronunciationPressed
    then show ?thesis by (simp add: handlers_keep_shuffled)
  next
    case PronunciationSkipPressed
    then show ?thesis by (simp add: handlers_keep_shuffled)
  next
    case (EndingsOptionPressed opt)
    then show ?thesis by (simp add: handlers_keep_shuffled)
  next
    case (PracticeValidateArrived k r)
    then show ?thesis by (simp add: responses_keep_shuffled take_out_ui split: pending.splits)
  next
    case (PracticeSkipArrived k r)
    then show ?thesis by (simp add: responses_keep_shuffled take_out_ui split: pending.splits)
  next
    case (PronunciationSkipArrived k r)
    then show ?thesis by (simp add: responses_keep_shuffled take_out_ui split: pending.splits)
  next
    case (VerbsValidateArrived k r)
    then show ?thesis by (simp add: responses_keep_shuffled take_out_ui split: pending.splits)
  next
    case (VerbsQuestionArrived k r)
    then show ?thesis by (simp add: responses_keep_shuffled take_out_ui split: pending.splits)
  next
    case EndingsSkipPressed
    then show ?thesis by (simp add: handlers_keep_shuffled)
  next
    case (EndingsSkipValidateArrived k r)
    then show ?thesis by (simp add: responses_keep_shuffled take_out_ui split: pending.splits)
  next
    case (EndingsSkipStatsArrived k r)
    then show ?thesis by (simp add: responses_keep_shuffled take_out_ui split: pending.splits)
  next
    case (EndingsStatsLoaded st)
    then show ?thesis by (simp add: setter_defs)
  next
    case RecordPressed
    then show ?thesis by (simp add: handlers_keep_shuffled)
  next
    case (UserMediaArrived k granted)
    then show ?thesis by (simp add: responses_keep_shuffled take_out_ui split: pending.splits)
  next
    case StopPressed
    then show ?thesis by (simp add: handlers_keep_shuffled)
  next
    case (RecorderStopped k)
    then show ?thesis by (simp add: handlers_keep_shuffled take_out_ui split: pending.splits)
  next
    case (PronunciationArrived k r)
    then show ?thesis by (simp add: responses_keep_shuffled take_out_ui split: pending.splits)
  next
    case (TimerFired t)
    then show ?thesis by (simp add: handlers_keep_shuffled split: option.splits)
  qed
  then show ?thesis
    by (simp add: pool_loaded del: step.simps)
qed

theorem reshuffle_whenever_the_effect_runs_witness:
  "word_page (activePage (ui practising))
   \<and> shuffledWords (ui (step (PoolLoaded [wordA, wordB] halves) practising)) = [wordA, wordB]
   \<and> shuffledWords (ui (step SkipPressed practising)) = [wordB, wordA]
   \<and> practiceIndex (ui (step (PoolLoaded [wordA, wordB] halves) practising)) = Num 0"
proof -
  have h: "word_page (activePage (ui practising))" "shuffledWords (ui practising) = [wordB, wordA]"
    by (simp_all add: practising_eq init_def word_page_def)
  from reshuffle_whenever_the_effect_runs [of "PoolLoaded [wordA, wordB] halves" practising "[wordA, wordB]" halves]
       reshuffle_whenever_the_effect_runs [of SkipPressed practising "[]" zeros] h
  show ?thesis
    by (simp add: shuffle_halves2 del: step.simps)
qed

end
